theory Spec2Isabelle
  imports Main "HOL-Library.Word"
begin

unbundle bit_operations_syntax

section \<open>Fatal errors\<close>

text \<open>
  Every abort of the C code (a failed \<open>assert\<close>, a dereferenced \<open>NULL\<close> pointer, a
  \<open>panic\<close>) is a value of this type; a function that can abort returns \<open>fatal + 'a\<close>.
\<close>

datatype fatal =
    Illegal_border
  | Color_exhaustion
  | Null_deref
  | Assertion_failed string
  | Panic string

section \<open>Chordal register allocator (ir/be/bechordal.c)\<close>

subsection \<open>Hashed sets and bitsets\<close>

text \<open>
  Modelled from the spec: the hashed set of \<open>adt/set.c\<close> (\<open>new_set\<close>, \<open>set_insert\<close>,
  \<open>set_find\<close>) is missing. The spec calls \<open>env->edges\<close> and \<open>env->nodes\<close> hashed sets:
  an element is found when an entry with the same hash compares equal (the comparison
  callback returns 0), and \<open>set_insert\<close> adds the element only when it is not found.
  The entries are kept in insertion order, each with its hash.
\<close>

type_synonym 'a hset = "(int \<times> 'a) list"

definition set_find :: "('a \<Rightarrow> 'a \<Rightarrow> int) \<Rightarrow> 'a hset \<Rightarrow> 'a \<Rightarrow> int \<Rightarrow> 'a option" where
  "set_find cmp s key h = map_option snd (find (\<lambda>(h', e). h' = h \<and> cmp e key = 0) s)"

definition set_insert :: "('a \<Rightarrow> 'a \<Rightarrow> int) \<Rightarrow> 'a hset \<Rightarrow> 'a \<Rightarrow> int \<Rightarrow> 'a hset" where
  "set_insert cmp s key h = (case set_find cmp s key h of Some e \<Rightarrow> s | None \<Rightarrow> s @ [(h, key)])"

text \<open>
  Modelled from the spec: the bitset of \<open>adt/bitset.h\<close> is missing. The spec keeps the
  live values and the colors in use in bitsets: a \<open>bitset_t\<close> is a fixed-size array of
  bits, position \<open>i\<close> of the list is bit \<open>i\<close>, and \<open>bitset_foreach\<close> visits the set
  positions in increasing order.
\<close>

type_synonym bitset = "bool list"

definition bitset_alloc :: "nat \<Rightarrow> bitset" where
  "bitset_alloc n = replicate n False"

definition bitset_set :: "bitset \<Rightarrow> nat \<Rightarrow> bitset" where
  "bitset_set bs i = bs[i := True]"

definition bitset_clear :: "bitset \<Rightarrow> nat \<Rightarrow> bitset" where
  "bitset_clear bs i = bs[i := False]"

definition bitset_clear_all :: "bitset \<Rightarrow> bitset" where
  "bitset_clear_all bs = replicate (length bs) False"

definition bitset_is_set :: "bitset \<Rightarrow> nat \<Rightarrow> bool" where
  "bitset_is_set bs i = (i < length bs \<and> bs ! i)"

definition bitset_foreach :: "bitset \<Rightarrow> nat list" where
  "bitset_foreach bs = filter (\<lambda>i. bs ! i) [0..<length bs]"

text \<open>
  Modelled from the spec: \<open>bitset_next_clear\<close> (\<open>adt/bitset.h\<close>) is missing. The spec has
  the assignment pass take ``the smallest-indexed clear color''; the result is that
  position, searched from \<open>pos\<close> on, and \<open>-1\<close> when no position of the bitset is clear.
\<close>

definition bitset_next_clear :: "bitset \<Rightarrow> nat \<Rightarrow> int" where
  "bitset_next_clear bs pos =
     (case find (\<lambda>i. \<not> bs ! i) [pos..<length bs] of None \<Rightarrow> -1 | Some i \<Rightarrow> int i)"

text \<open>
  Modelled from the spec: \<open>arch_register_for_index\<close> (\<open>bearch.h\<close>) is missing. A register
  class of \<open>n_regs\<close> registers has the registers \<open>0, ..., n_regs - 1\<close>; the spec says that
  the assigned color of a node lies in \<open>[0, colors_n)\<close> and that reaching a def with every
  color in use is fatal, so an index outside the class aborts.
\<close>

definition arch_register_for_index :: "nat \<Rightarrow> int \<Rightarrow> fatal + nat" where
  "arch_register_for_index n_regs idx =
     (if 0 \<le> idx \<and> idx < int n_regs then Inr (nat idx) else Inl Color_exhaustion)"

subsection \<open>Interference graph\<close>

text \<open>
  An \<open>if_edge_t\<close> holds two node numbers; an \<open>if_node_t\<close> a node number and the set of
  its neighbours (a \<open>pset\<close> of pointers to \<open>if_node_t\<close>, here their node numbers in
  insertion order).
\<close>

record if_edge =
  src :: int
  tgt :: int

record if_node =
  nnr :: int
  neighb :: "int list"

definition IF_EDGE_HASH :: "if_edge \<Rightarrow> int" where
  "IF_EDGE_HASH e = src e"

definition IF_NODE_HASH :: "if_node \<Rightarrow> int" where
  "IF_NODE_HASH n = nnr n"

text \<open>The comparison callbacks return 0 for equal elements.\<close>

definition if_edge_cmp :: "if_edge \<Rightarrow> if_edge \<Rightarrow> int" where
  "if_edge_cmp e1 e2 = (if src e1 = src e2 \<and> tgt e1 = tgt e2 then 0 else 1)"

definition if_node_cmp :: "if_node \<Rightarrow> if_node \<Rightarrow> int" where
  "if_node_cmp n1 n2 = (if nnr n1 \<noteq> nnr n2 then 1 else 0)"

text \<open>\<open>edge_init\<close>: bring the smaller entry to \<open>src\<close>.\<close>

definition edge_init :: "int \<Rightarrow> int \<Rightarrow> if_edge" where
  "edge_init s t = (if s > t then \<lparr>src = t, tgt = s\<rparr> else \<lparr>src = s, tgt = t\<rparr>)"

text \<open>
  A border of a live interval (\<open>border_t\<close>). The \<open>other_end\<close> pointer and the list
  linkage are not read by the passes modelled here; a block's border list is the list of
  its borders in the order of \<open>list_add_tail\<close>.
\<close>

record border =
  b_irn :: nat
  b_step :: "32 word"
  b_pressure :: "32 word"
  b_is_def :: bool
  b_is_real :: bool

text \<open>
  The environment \<open>env_t\<close> of the allocator phases together with the state of the graph the
  phases write: the \<open>link\<close> slot of a node (here: whether it holds a border), the color
  and the register of a node, and the border list under construction. \<open>cur_step\<close> and
  \<open>cur_pressure\<close> are the locals \<open>step\<close> and \<open>pressure\<close> of the function \<open>pressure\<close>.
\<close>

record env_t =
  nodes :: "if_node hset"
  edges :: "if_edge hset"
  live :: bitset
  colors :: bitset
  in_colors :: bitset
  colors_n :: nat
  irn_link :: "nat \<Rightarrow> bool"
  irn_color :: "nat \<Rightarrow> int"
  irn_reg :: "nat \<Rightarrow> nat option"
  border_head :: "nat \<Rightarrow> border list"
  cur_step :: "32 word"
  cur_pressure :: "32 word"

text \<open>
  What the allocator reads from the IR, the schedule, the liveness analysis and the
  architecture description. A node is identified by its graph number
  (\<open>get_irn_graph_nr\<close>); \<open>has_reg_class n\<close> is
  \<open>arch_irn_has_reg_class(env->arch_env, n, 0, cls)\<close> and \<open>be_is_Phi n\<close> is
  \<open>is_Phi(n)\<close>.
\<close>

record be_graph =
  has_reg_class :: "nat \<Rightarrow> bool"
  be_is_Phi :: "nat \<Rightarrow> bool"
  irn_ins :: "nat \<Rightarrow> nat list"
  irn_irg :: "nat \<Rightarrow> nat"
  sched :: "nat \<Rightarrow> nat list"
  live_in :: "nat \<Rightarrow> nat list"
  live_end :: "nat \<Rightarrow> nat list"

definition NO_COLOR :: int where
  "NO_COLOR = -1"

definition pset_insert_ptr :: "int list \<Rightarrow> int \<Rightarrow> int list" where
  "pset_insert_ptr ps p = (if p \<in> set ps then ps else ps @ [p])"

definition neighb_insert :: "if_node hset \<Rightarrow> int \<Rightarrow> int \<Rightarrow> if_node hset" where
  "neighb_insert ns n m =
     map (\<lambda>(h, x). if nnr x = n then (h, x\<lparr>neighb := pset_insert_ptr (neighb x) m\<rparr>) else (h, x)) ns"

definition add_if :: "env_t \<Rightarrow> int \<Rightarrow> int \<Rightarrow> env_t" where
  "add_if env s t =
     (let edge = edge_init s t;
          es = set_insert if_edge_cmp (edges env) edge (IF_EDGE_HASH edge);
          node1 = \<lparr>nnr = s, neighb = []\<rparr>;
          ns1 = set_insert if_node_cmp (nodes env) node1 (IF_NODE_HASH node1);
          node2 = \<lparr>nnr = t, neighb = []\<rparr>;
          ns2 = set_insert if_node_cmp ns1 node2 (IF_NODE_HASH node2);
          ns3 = neighb_insert ns2 s t;
          ns4 = neighb_insert ns3 t s
      in env\<lparr>edges := es, nodes := ns4\<rparr>)"

definition are_connected :: "env_t \<Rightarrow> int \<Rightarrow> int \<Rightarrow> bool" where
  "are_connected env s t =
     (let edge = edge_init s t
      in set_find if_edge_cmp (edges env) edge (IF_EDGE_HASH edge) \<noteq> None)"

subsection \<open>The pressure pass\<close>

text \<open>
  \<open>border_add\<close>: a use allocates its border and the border of the def and stores the
  latter in the link slot of the node; a def takes its border from the link slot, which
  must hold one. The border is appended to the list of block \<open>bl\<close>.
\<close>

definition border_add ::
  "env_t \<Rightarrow> nat \<Rightarrow> nat \<Rightarrow> 32 word \<Rightarrow> 32 word \<Rightarrow> bool \<Rightarrow> bool \<Rightarrow> fatal + env_t" where
  "border_add env bl irn stp prs is_def is_real =
     (let b = \<lparr>b_irn = irn, b_step = stp, b_pressure = prs, b_is_def = is_def, b_is_real = is_real\<rparr>
      in if \<not> is_def then
           Inr (env\<lparr>irn_link := (irn_link env)(irn := True),
                    border_head := (border_head env)(bl := border_head env bl @ [b])\<rparr>)
         else if \<not> irn_link env irn then Inl Illegal_border
         else Inr (env\<lparr>border_head := (border_head env)(bl := border_head env bl @ [b])\<rparr>))"

text \<open>The macros \<open>border_def\<close> (passes \<open>pressure--\<close>) and \<open>border_use\<close> (passes \<open>++pressure\<close>).\<close>

definition border_def :: "env_t \<Rightarrow> nat \<Rightarrow> nat \<Rightarrow> bool \<Rightarrow> fatal + env_t" where
  "border_def env bl irn real =
     border_add (env\<lparr>cur_pressure := cur_pressure env - 1\<rparr>) bl irn
       (cur_step env) (cur_pressure env) True real"

definition border_use :: "env_t \<Rightarrow> nat \<Rightarrow> nat \<Rightarrow> bool \<Rightarrow> fatal + env_t" where
  "border_use env bl irn real =
     border_add (env\<lparr>cur_pressure := cur_pressure env + 1\<rparr>) bl irn
       (cur_step env) (cur_pressure env + 1) False real"

text \<open>The first loop: final uses of all values live out of the block.\<close>

fun pressure_live_end :: "be_graph \<Rightarrow> nat \<Rightarrow> nat list \<Rightarrow> env_t \<Rightarrow> fatal + env_t" where
  "pressure_live_end g bl [] env = Inr env"
| "pressure_live_end g bl (irn # irns) env =
     (let env1 = env\<lparr>live := bitset_set (live env) irn\<rparr>
      in if has_reg_class g irn then
           (case border_use env1 bl irn False of
              Inl e \<Rightarrow> Inl e
            | Inr env2 \<Rightarrow> pressure_live_end g bl irns env2)
         else pressure_live_end g bl irns env1)"

text \<open>The uses of one instruction: the loop over its operands.\<close>

fun pressure_ops :: "be_graph \<Rightarrow> nat \<Rightarrow> nat list \<Rightarrow> env_t \<Rightarrow> fatal + env_t" where
  "pressure_ops g bl [] env = Inr env"
| "pressure_ops g bl (op # ops) env =
     (if has_reg_class g op then
        (if \<not> bitset_is_set (live env) op then
           (case border_use env bl op True of
              Inl e \<Rightarrow> Inl e
            | Inr env1 \<Rightarrow> pressure_ops g bl ops (env1\<lparr>live := bitset_set (live env1) op\<rparr>))
         else pressure_ops g bl ops env)
      else pressure_ops g bl ops env)"

text \<open>The def of one instruction, with the interference edges to all live values.\<close>

definition pressure_insn_def :: "be_graph \<Rightarrow> nat \<Rightarrow> nat \<Rightarrow> env_t \<Rightarrow> fatal + env_t" where
  "pressure_insn_def g bl irn env =
     (if has_reg_class g irn then
        (let env1 = env\<lparr>live := bitset_clear (live env) irn\<rparr>
         in case border_def env1 bl irn True of
              Inl e \<Rightarrow> Inl e
            | Inr env2 \<Rightarrow>
                Inr (foldl (\<lambda>e elm. add_if e (int irn) (int elm)) env2 (bitset_foreach (live env2))))
      else Inr env)"

text \<open>The loop \<open>sched_foreach_reverse\<close>; the list is the schedule already reversed.\<close>

fun pressure_sched :: "be_graph \<Rightarrow> nat \<Rightarrow> nat list \<Rightarrow> env_t \<Rightarrow> fatal + env_t" where
  "pressure_sched g bl [] env = Inr env"
| "pressure_sched g bl (irn # irns) env =
     (let env0 = env\<lparr>irn_color := (irn_color env)(irn := NO_COLOR)\<rparr>
      in case pressure_insn_def g bl irn env0 of
           Inl e \<Rightarrow> Inl e
         | Inr env1 \<Rightarrow>
             (case (if \<not> be_is_Phi g irn then pressure_ops g bl (irn_ins g irn) env1 else Inr env1) of
                Inl e \<Rightarrow> Inl e
              | Inr env2 \<Rightarrow> pressure_sched g bl irns (env2\<lparr>cur_step := cur_step env2 + 1\<rparr>)))"

text \<open>The last loop: initial defs for all values live in.\<close>

fun pressure_live_in :: "be_graph \<Rightarrow> nat \<Rightarrow> nat list \<Rightarrow> env_t \<Rightarrow> fatal + env_t" where
  "pressure_live_in g bl [] env = Inr env"
| "pressure_live_in g bl (irn # irns) env =
     (if has_reg_class g irn then
        (case border_def (env\<lparr>live := bitset_set (live env) irn\<rparr>) bl irn False of
           Inl e \<Rightarrow> Inl e
         | Inr env1 \<Rightarrow> pressure_live_in g bl irns env1)
      else pressure_live_in g bl irns env)"

definition pressure :: "be_graph \<Rightarrow> nat \<Rightarrow> env_t \<Rightarrow> fatal + env_t" where
  "pressure g bl env =
     (let env0 = env\<lparr>live := bitset_clear_all (live env),
                     border_head := (border_head env)(bl := []),
                     cur_step := 0, cur_pressure := 0\<rparr>
      in case pressure_live_end g bl (live_end g bl) env0 of
           Inl e \<Rightarrow> Inl e
         | Inr env1 \<Rightarrow>
             (case pressure_sched g bl (rev (sched g bl)) (env1\<lparr>cur_step := cur_step env1 + 1\<rparr>) of
                Inl e \<Rightarrow> Inl e
              | Inr env2 \<Rightarrow> pressure_live_in g bl (live_in g bl) env2))"

text \<open>
  \<open>dom_tree_walk_irg(irg, pressure, NULL, env)\<close>: the walker is called for the blocks in
  dominator-tree pre-order, here the list \<open>bls\<close>.
\<close>

fun pressure_walk :: "be_graph \<Rightarrow> nat list \<Rightarrow> env_t \<Rightarrow> fatal + env_t" where
  "pressure_walk g [] env = Inr env"
| "pressure_walk g (bl # bls) env =
     (case pressure g bl env of Inl e \<Rightarrow> Inl e | Inr env1 \<Rightarrow> pressure_walk g bls env1)"

text \<open>The environment as \<open>be_ra_chordal\<close> sets it up: empty sets, cleared bitsets.\<close>

definition be_ra_chordal_env :: "nat \<Rightarrow> nat \<Rightarrow> env_t \<Rightarrow> env_t" where
  "be_ra_chordal_env node_count n_regs old =
     old\<lparr>nodes := [], edges := [],
         live := bitset_alloc node_count,
         colors := bitset_alloc n_regs,
         in_colors := bitset_alloc n_regs,
         colors_n := n_regs\<rparr>"

subsection \<open>The assignment pass\<close>

text \<open>
  The first loop of \<open>assign\<close>: the colors of the values live in are marked as used. A
  live-in value of the class must have a register already.
\<close>

fun assign_live_in :: "be_graph \<Rightarrow> nat list \<Rightarrow> env_t \<Rightarrow> fatal + env_t" where
  "assign_live_in g [] env = Inr env"
| "assign_live_in g (irn # irns) env =
     (if has_reg_class g irn then
        (case irn_reg env irn of
           None \<Rightarrow> Inl (Assertion_failed ''Nodfe must have been assigned a register'')
         | Some col \<Rightarrow>
             assign_live_in g irns
               (env\<lparr>colors := bitset_set (colors env) col,
                    in_colors := bitset_set (in_colors env) col,
                    live := bitset_set (live env) irn\<rparr>))
      else assign_live_in g irns env)"

text \<open>
  The body of the loop over the borders: a local def gets the next clear color, a use
  gives the color of its value back. \<open>is_live_in(block, irn)\<close> is membership in the
  live-in set of the block.
\<close>

definition assign_border :: "be_graph \<Rightarrow> nat \<Rightarrow> border \<Rightarrow> env_t \<Rightarrow> fatal + env_t" where
  "assign_border g bl b env =
     (let irn = b_irn b in
      if b_is_def b \<and> irn \<notin> set (live_in g bl) then
        (let col = bitset_next_clear (colors env) 0
         in case arch_register_for_index (colors_n env) col of
              Inl e \<Rightarrow> Inl e
            | Inr reg \<Rightarrow>
                if irn_reg env irn \<noteq> None then
                  Inl (Assertion_failed ''This node must not have been assigned a register yet'')
                else if bitset_is_set (live env) irn then
                  Inl (Assertion_failed ''Value's definition must not have been encountered'')
                else
                  Inr (env\<lparr>colors := bitset_set (colors env) (nat col),
                           live := bitset_set (live env) irn,
                           irn_reg := (irn_reg env)(irn \<mapsto> reg)\<rparr>))
      else if \<not> b_is_def b then
        (case irn_reg env irn of
           None \<Rightarrow> Inl (Assertion_failed ''Register must have been assigned'')
         | Some col \<Rightarrow>
             if \<not> bitset_is_set (live env) irn then
               Inl (Assertion_failed ''Cannot have a non live use'')
             else
               Inr (env\<lparr>colors := bitset_clear (colors env) col,
                        live := bitset_clear (live env) irn\<rparr>))
      else Inr env)"

text \<open>\<open>list_for_each_entry_reverse\<close>; the list is the border list already reversed.\<close>

fun assign_borders :: "be_graph \<Rightarrow> nat \<Rightarrow> border list \<Rightarrow> env_t \<Rightarrow> fatal + env_t" where
  "assign_borders g bl [] env = Inr env"
| "assign_borders g bl (b # bs) env =
     (case assign_border g bl b env of
        Inl e \<Rightarrow> Inl e
      | Inr env1 \<Rightarrow> assign_borders g bl bs env1)"

definition assign :: "be_graph \<Rightarrow> nat \<Rightarrow> env_t \<Rightarrow> fatal + env_t" where
  "assign g bl env =
     (let env0 = env\<lparr>live := bitset_clear_all (live env),
                     colors := bitset_clear_all (colors env),
                     in_colors := bitset_clear_all (in_colors env)\<rparr>
      in case assign_live_in g (live_in g bl) env0 of
           Inl e \<Rightarrow> Inl e
         | Inr env1 \<Rightarrow> assign_borders g bl (rev (border_head env1 bl)) env1)"

subsection \<open>Queries of later passes\<close>

text \<open>
  \<open>phi_ops_interfere\<close> (with \<open>BUILD_GRAPH\<close> defined): \<open>ra_link\<close> is
  \<open>get_irg_ra_link\<close>, the environment \<open>be_ra_chordal\<close> left at the graph, \<open>None\<close> when
  there is none.
\<close>

definition phi_ops_interfere ::
  "be_graph \<Rightarrow> (nat \<Rightarrow> env_t option) \<Rightarrow> nat \<Rightarrow> nat \<Rightarrow> fatal + bool" where
  "phi_ops_interfere g ra_link a b =
     (let irg = irn_irg g a in
      if irg \<noteq> irn_irg g b then
        Inl (Assertion_failed ''Both nodes must be in the same graph'')
      else
        (case ra_link irg of
           None \<Rightarrow> Inl Null_deref
         | Some env \<Rightarrow> Inr (are_connected env (int a) (int b))))"

subsection \<open>Invariant of the edge set, and example inputs\<close>

text \<open>
  The invariant of \<open>env->edges\<close>: every entry has its smaller node number in \<open>src\<close>, a
  strictly larger one in \<open>tgt\<close>, is stored under the hash \<open>IF_EDGE_HASH\<close>, and no two
  entries hold the same edge.
\<close>

definition edges_inv :: "if_edge hset \<Rightarrow> bool" where
  "edges_inv es = ((\<forall>(h, e) \<in> set es. src e < tgt e \<and> h = src e) \<and> distinct (map snd es))"

text \<open>
  A block of three instructions: node 3 uses nodes 1 and 2 and is live at the end of the
  block. An environment before \<open>be_ra_chordal\<close>, and a border of a local def.
\<close>

definition wg :: be_graph where
  "wg = \<lparr>has_reg_class = (\<lambda>n. True), be_is_Phi = (\<lambda>n. False),
          irn_ins = (\<lambda>n. if n = 3 then [1, 2] else []),
          irn_irg = (\<lambda>n. 0),
          sched = (\<lambda>bl. [1, 2, 3]),
          live_in = (\<lambda>bl. []),
          live_end = (\<lambda>bl. [3])\<rparr>"

definition wenv :: env_t where
  "wenv = \<lparr>nodes = [], edges = [], live = [], colors = [], in_colors = [], colors_n = 0,
           irn_link = (\<lambda>n. False), irn_color = (\<lambda>n. 0), irn_reg = (\<lambda>n. None),
           border_head = (\<lambda>bl. []), cur_step = 0, cur_pressure = 0\<rparr>"

definition wdef :: border where
  "wdef = \<lparr>b_irn = 5, b_step = 1, b_pressure = 3, b_is_def = True, b_is_real = True\<rparr>"


section \<open>GVN-PRE (ir/opt/gvn_pre.c)\<close>

subsection \<open>Nodes and the parts of the IR library the pass reads\<close>

text \<open>
  A node is addressed by a natural number (its pointer). The opcodes the pass tests by
  name are constructors; every other opcode is \<open>op_Other\<close> with its code.
\<close>

datatype ir_op = op_Block | op_Phi | op_Load | op_Const | op_Proj | op_Other nat

record ir_node =
  irn_op :: ir_op
  irn_mode :: nat
  irn_in :: "nat list"
  irn_attr :: int

text \<open>
  The graph, and what the IR library (not under \<open>src/\<close>) decides per opcode: the flags
  behind \<open>is_memop\<close>, \<open>is_irn_cse_neutral\<close> and \<open>is_irn_constlike\<close>, and the attribute
  comparison \<open>op->ops.node_cmp_attr\<close>, which returns 0 for equal attributes and may be
  absent. \<open>opt_global_cse\<close> is \<open>get_opt_global_cse()\<close>, \<open>Block_cfgpred_blocks b\<close> lists
  \<open>get_Block_cfgpred_block(b, pos)\<close> for the positions of block \<open>b\<close>, and \<open>value_of\<close> is
  the value \<open>identify\<close> finds for a node in the value map and the value table.
\<close>

record ir_graph =
  node_at :: "nat \<Rightarrow> ir_node"
  op_uses_memory :: "ir_op \<Rightarrow> bool"
  op_cse_neutral :: "ir_op \<Rightarrow> bool"
  op_constlike :: "ir_op \<Rightarrow> bool"
  op_node_cmp_attr :: "ir_op \<Rightarrow> (int \<Rightarrow> int \<Rightarrow> int) option"
  opt_global_cse :: bool
  Block_cfgpred_blocks :: "nat \<Rightarrow> nat list"
  value_of :: "nat \<Rightarrow> nat"
  tarval_in_range :: "nat \<Rightarrow> bool"

definition get_irn_op :: "ir_graph \<Rightarrow> nat \<Rightarrow> ir_op" where
  "get_irn_op g n = irn_op (node_at g n)"




definition is_Phi :: "ir_graph \<Rightarrow> nat \<Rightarrow> bool" where
  "is_Phi g n = (get_irn_op g n = op_Phi)"



definition is_Const :: "ir_graph \<Rightarrow> nat \<Rightarrow> bool" where
  "is_Const g n = (get_irn_op g n = op_Const)"



definition is_irn_constlike :: "ir_graph \<Rightarrow> nat \<Rightarrow> bool" where
  "is_irn_constlike g n = op_constlike g (get_irn_op g n)"

subsection \<open>Value numbering\<close>



text \<open>
  The inputs \<open>remember\<close> gives the representative of a node: a Phi input stays, every
  other input is replaced by its value; \<open>changed\<close> tells whether a new node is needed.
\<close>

definition remember_in :: "ir_graph \<Rightarrow> nat \<Rightarrow> nat list \<times> bool" where
  "remember_in g irn =
     (let preds = irn_in (node_at g irn)
      in (map (\<lambda>pred. if is_Phi g pred then pred else value_of g pred) preds,
          \<exists>pred \<in> set preds. \<not> is_Phi g pred \<and> pred \<noteq> value_of g pred))"


subsection \<open>Partial redundancy\<close>

text \<open>
  Modelled from the spec: the value set of \<open>valueset.c\<close> is missing; the spec describes it
  as an insertion-ordered mapping from value number to representative expression.
  \<open>ir_valueset_lookup\<close> returns the expression stored for a value, \<open>NULL\<close> if there is none.
\<close>

type_synonym ir_valueset = "(nat \<times> nat) list"

definition ir_valueset_lookup :: "ir_valueset \<Rightarrow> nat \<Rightarrow> nat option" where
  "ir_valueset_lookup vs v = map_of vs v"

text \<open>The \<open>block_info\<close> of a block; \<open>trans\<close> is the node hash map of translated nodes.\<close>

record block_info =
  exp_gen :: ir_valueset
  avail_out :: ir_valueset
  antic_in :: ir_valueset
  antic_done :: ir_valueset
  new_set :: "ir_valueset option"
  trans :: "nat \<Rightarrow> nat option"
  avail :: "nat option"
  found :: int

text \<open>\<open>get_translated\<close>: a constlike node is its own translation.\<close>

definition get_translated :: "ir_graph \<Rightarrow> (nat \<Rightarrow> block_info) \<Rightarrow> nat \<Rightarrow> nat \<Rightarrow> nat option" where
  "get_translated g info block node =
     (if is_irn_constlike g node then Some node else trans (info block) node)"

text \<open>
  The expression \<open>is_partially_redundant\<close> finds available for \<open>expr\<close> at the end of one
  predecessor block: a translated expression that is a \<open>Const\<close> is available as it is,
  any other one is looked up by its value in \<open>avail_out\<close> of the predecessor. A missing
  translation is a \<open>NULL\<close> pointer handed to \<open>identify\<close> and \<open>is_Const\<close>.
\<close>

definition avail_in_pred ::
  "ir_graph \<Rightarrow> (nat \<Rightarrow> block_info) \<Rightarrow> nat \<Rightarrow> nat \<Rightarrow> fatal + (nat \<times> nat option)" where
  "avail_in_pred g info pred_block expr =
     (case get_translated g info pred_block expr of
        None \<Rightarrow> Inl Null_deref
      | Some trans_expr \<Rightarrow>
          (let trans_value = value_of g trans_expr;
               avail_expr = (if is_Const g trans_expr then Some trans_expr
                             else ir_valueset_lookup (avail_out (info pred_block)) trans_value);
               avail_expr1 = (if avail_expr = None \<and> is_Const g trans_expr
                              then (if tarval_in_range g trans_expr then Some trans_expr else None)
                              else avail_expr)
           in Inr (trans_expr, avail_expr1)))"






subsection \<open>The fixpoint loops of the pass\<close>















subsection \<open>Availability in a predecessor, and example inputs\<close>

text \<open>
  The expression that counts as available for \<open>expr\<close> at the end of a predecessor
  block: the translated expression itself when it is a \<open>Const\<close>, otherwise the expression
  that \<open>avail_out\<close> of the predecessor holds for its value.
\<close>

definition available_expr :: "ir_graph \<Rightarrow> (nat \<Rightarrow> block_info) \<Rightarrow> nat \<Rightarrow> nat \<Rightarrow> nat option" where
  "available_expr g info expr pred_block =
     (case get_translated g info pred_block expr of
        None \<Rightarrow> None
      | Some trans_expr \<Rightarrow>
          if is_Const g trans_expr then Some trans_expr
          else ir_valueset_lookup (avail_out (info pred_block)) (value_of g trans_expr))"






section \<open>IA-32 emitter (ir/be/ia32/ia32_emitter.c)\<close>

subsection \<open>Registers and the output stream\<close>

text \<open>
  The general purpose registers, and \<open>reg_gp_map\<close> as \<open>build_reg_map\<close> fills it: the
  hardware encoding of a register. Two \<open>arch_register_t\<close> pointers are equal iff they are
  the same register.
\<close>

datatype gp_reg =
    REG_GP_EAX | REG_GP_ECX | REG_GP_EDX | REG_GP_EBX
  | REG_GP_ESP | REG_GP_EBP | REG_GP_ESI | REG_GP_EDI

fun reg_gp_map :: "gp_reg \<Rightarrow> 8 word" where
  "reg_gp_map REG_GP_EAX = 0x0"
| "reg_gp_map REG_GP_ECX = 0x1"
| "reg_gp_map REG_GP_EDX = 0x2"
| "reg_gp_map REG_GP_EBX = 0x3"
| "reg_gp_map REG_GP_ESP = 0x4"
| "reg_gp_map REG_GP_EBP = 0x5"
| "reg_gp_map REG_GP_ESI = 0x6"
| "reg_gp_map REG_GP_EDI = 0x7"

text \<open>The mod encodings of the ModR/M byte and the field encodings.\<close>

definition MOD_IND :: "'a::len word" where
  "MOD_IND = 0x00"

definition MOD_IND_BYTE_OFS :: "'a::len word" where
  "MOD_IND_BYTE_OFS = 0x40"

definition MOD_IND_WORD_OFS :: "'a::len word" where
  "MOD_IND_WORD_OFS = 0x80"

definition MOD_REG :: "'a::len word" where
  "MOD_REG = 0xC0"

definition ENC_RM :: "'a::len word \<Rightarrow> 'a word" where
  "ENC_RM x = x"

definition ENC_REG :: "'a::len word \<Rightarrow> 'a word" where
  "ENC_REG x = push_bit 3 x"

definition ENC_SIB :: "'a::len word \<Rightarrow> 'a word \<Rightarrow> 'a word \<Rightarrow> 'a word" where
  "ENC_SIB scale index base = push_bit 6 scale OR push_bit 3 index OR base"

text \<open>
  The binary emitter writes assembler directives: \<open>.byte\<close>, \<open>.long\<close> with a number, and
  \<open>.long\<close> with an entity (its sign and an offset). An emit function returns the
  directives it appends to the output, in order.
\<close>

datatype emitted =
    Byte "8 word"
  | Long "32 word"
  | Long_entity nat bool int

definition bemit8 :: "8 word \<Rightarrow> emitted list" where
  "bemit8 byte = [Byte byte]"

definition bemit32 :: "32 word \<Rightarrow> emitted list" where
  "bemit32 u32 = [Long u32]"

text \<open>
  \<open>bemit_entity\<close> with \<open>is_relative = false\<close>, as \<open>bemit_mod_am\<close> calls it; the offset is
  a C \<open>int\<close>.
\<close>

definition bemit_entity :: "nat option \<Rightarrow> bool \<Rightarrow> int \<Rightarrow> emitted list" where
  "bemit_entity entity entity_sign offset =
     (case entity of
        None \<Rightarrow> bemit32 (word_of_int offset)
      | Some e \<Rightarrow> [Long_entity e entity_sign offset])"

subsection \<open>ModR/M bytes\<close>

definition bemit_modrr :: "gp_reg \<Rightarrow> gp_reg \<Rightarrow> emitted list" where
  "bemit_modrr src1 src2 =
     bemit8 (MOD_REG OR ENC_RM (reg_gp_map src1) OR ENC_REG (reg_gp_map src2))"

definition bemit_modru :: "gp_reg \<Rightarrow> 32 word \<Rightarrow> fatal + emitted list" where
  "bemit_modru reg ext =
     (if \<not> ext \<le> 7 then Inl (Assertion_failed ''ext <= 7'')
      else Inr (bemit8 (MOD_REG OR ENC_RM (reg_gp_map reg) OR ENC_REG (ucast ext))))"

text \<open>
  The address mode of a node as \<open>bemit_mod_am\<close> reads it: the entity \<open>get_ia32_am_sc\<close>
  and its sign, the offset \<open>get_ia32_am_offs_int\<close>, the registers of the base and the
  index input (\<open>None\<close> for the \<open>NoReg_GP\<close> node) and the scale.
\<close>

record ia32_am =
  am_sc :: "nat option"
  am_sc_sign :: bool
  am_offs_int :: int
  am_base :: "gp_reg option"
  am_index :: "gp_reg option"
  am_scale :: int

text \<open>The locals of \<open>bemit_mod_am\<close>.\<close>

record mod_am_locals =
  modrm :: "32 word"
  sib :: "32 word"
  emitoffs :: nat
  emitsib :: bool
  base_enc :: "32 word"

text \<open>The mod part depending on the displacement, then the base.\<close>

definition mod_am_disp :: "ia32_am \<Rightarrow> mod_am_locals" where
  "mod_am_disp node =
     (let l = \<lparr>modrm = 0, sib = 0, emitoffs = 0, emitsib = False, base_enc = 0\<rparr>;
          offs = am_offs_int node;
          l1 = (if am_sc node \<noteq> None then l\<lparr>modrm := modrm l OR MOD_IND_WORD_OFS, emitoffs := 32\<rparr>
                else if offs = 0 then l\<lparr>modrm := modrm l OR MOD_IND, emitoffs := 0\<rparr>
                else if -128 \<le> offs \<and> offs < 128
                  then l\<lparr>modrm := modrm l OR MOD_IND_BYTE_OFS, emitoffs := 8\<rparr>
                else l\<lparr>modrm := modrm l OR MOD_IND_WORD_OFS, emitoffs := 32\<rparr>)
      in case am_base node of
           Some base_reg \<Rightarrow> l1\<lparr>base_enc := ucast (reg_gp_map base_reg)\<rparr>
         | None \<Rightarrow> l1\<lparr>modrm := MOD_IND, base_enc := 0x05, emitoffs := 32\<rparr>)"

text \<open>The SIB byte, and the forced 8 bit offset of an EBP base without offset.\<close>

definition mod_am_sib :: "ia32_am \<Rightarrow> mod_am_locals \<Rightarrow> fatal + mod_am_locals" where
  "mod_am_sib node l =
     (case (case am_index node of
              Some reg_index \<Rightarrow>
                if \<not> am_scale node < 4 then Inl (Assertion_failed ''scale < 4'')
                else Inr (l\<lparr>modrm := modrm l OR ENC_RM 0x04,
                            sib := ENC_SIB (word_of_int (am_scale node))
                                     (ucast (reg_gp_map reg_index)) (base_enc l),
                            emitsib := True\<rparr>)
            | None \<Rightarrow>
                if base_enc l = 0x04
                then Inr (l\<lparr>modrm := modrm l OR ENC_RM 0x04,
                            sib := ENC_SIB 0 0x04 0x04,
                            emitsib := True\<rparr>)
                else Inr (l\<lparr>modrm := modrm l OR ENC_RM (base_enc l)\<rparr>)) of
        Inl e \<Rightarrow> Inl e
      | Inr l1 \<Rightarrow>
          if base_enc l1 = 0x05 \<and> emitoffs l1 = 0
          then Inr (l1\<lparr>modrm := modrm l1 OR MOD_IND_BYTE_OFS, emitoffs := 8\<rparr>)
          else Inr l1)"

definition bemit_mod_am :: "32 word \<Rightarrow> ia32_am \<Rightarrow> fatal + emitted list" where
  "bemit_mod_am reg node =
     (case mod_am_sib node (mod_am_disp node) of
        Inl e \<Rightarrow> Inl e
      | Inr l \<Rightarrow>
          Inr (bemit8 (ucast (modrm l OR ENC_REG reg)) @
               (if emitsib l then bemit8 (ucast (sib l)) else []) @
               (if emitoffs l = 8 then bemit8 (word_of_int (am_offs_int node))
                else if emitoffs l = 32
                  then bemit_entity (am_sc node) (am_sc_sign node) (am_offs_int node)
                else [])))"

subsection \<open>Minus64Bit\<close>

text \<open>
  The textual emitter prints one instruction per call of \<open>ia32_emitf\<close>; the instructions
  of \<open>emit_ia32_Minus64Bit\<close> and its helpers are the constructors, with the operands in
  the order of the format string (source first).
\<close>

datatype insn =
    Xchgl gp_reg gp_reg
  | Movl gp_reg gp_reg
  | Negl gp_reg
  | Sbbl0 gp_reg
  | Sbbl gp_reg gp_reg
  | Xorl gp_reg gp_reg

definition emit_xchg :: "gp_reg \<Rightarrow> gp_reg \<Rightarrow> insn list" where
  "emit_xchg s d = [Xchgl s d]"

definition emit_mov :: "gp_reg \<Rightarrow> gp_reg \<Rightarrow> insn list" where
  "emit_mov s d = [Movl s d]"

definition emit_neg :: "gp_reg \<Rightarrow> insn list" where
  "emit_neg reg = [Negl reg]"

definition emit_sbb0 :: "gp_reg \<Rightarrow> insn list" where
  "emit_sbb0 reg = [Sbbl0 reg]"

definition emit_sbb :: "gp_reg \<Rightarrow> gp_reg \<Rightarrow> insn list" where
  "emit_sbb s d = [Sbbl s d]"

definition emit_zero :: "gp_reg \<Rightarrow> insn list" where
  "emit_zero reg = [Xorl reg reg]"

text \<open>The code at the labels \<open>normal_neg\<close> and \<open>zero_neg\<close>.\<close>

definition normal_neg :: "gp_reg \<Rightarrow> gp_reg \<Rightarrow> insn list" where
  "normal_neg out_lo out_hi = emit_neg out_hi @ emit_neg out_lo @ emit_sbb0 out_hi"

definition zero_neg :: "gp_reg \<Rightarrow> gp_reg \<Rightarrow> gp_reg \<Rightarrow> insn list" where
  "zero_neg in_hi out_lo out_hi = emit_zero out_hi @ emit_neg out_lo @ emit_sbb in_hi out_hi"

definition emit_ia32_Minus64Bit :: "gp_reg \<Rightarrow> gp_reg \<Rightarrow> gp_reg \<Rightarrow> gp_reg \<Rightarrow> insn list" where
  "emit_ia32_Minus64Bit in_lo in_hi out_lo out_hi =
     (if out_lo = in_lo then
        (if out_hi \<noteq> in_hi then zero_neg in_hi out_lo out_hi
         else normal_neg out_lo out_hi)
      else if out_lo = in_hi then
        (if out_hi = in_lo then emit_xchg in_lo in_hi @ normal_neg out_lo out_hi
         else emit_mov in_hi out_hi @ emit_mov in_lo out_lo @ normal_neg out_lo out_hi)
      else
        (if out_hi = in_lo then emit_mov in_lo out_lo @ zero_neg in_hi out_lo out_hi
         else if out_hi = in_hi then emit_mov in_lo out_lo @ normal_neg out_lo out_hi
         else emit_mov in_lo out_lo @ zero_neg in_hi out_lo out_hi))"

text \<open>
  The subcases the function distinguishes are the leaves of its nested \<open>if\<close>, named as
  its comments name them: where the low input \<open>a\<close> and the high input \<open>b\<close> go.
  \<open>Minus64Bit_case\<close> is the nested \<open>if\<close> with the name of the leaf in the place of its
  code.
\<close>

datatype minus64_case =
    a_to_a_b_to_d | a_to_a_b_to_b
  | a_to_b_b_to_a | a_to_b_b_to_d
  | a_to_c_b_to_a | a_to_c_b_to_b | a_to_c_b_to_d

definition Minus64Bit_case :: "gp_reg \<times> gp_reg \<times> gp_reg \<times> gp_reg \<Rightarrow> minus64_case" where
  "Minus64Bit_case r =
     (case r of (in_lo, in_hi, out_lo, out_hi) \<Rightarrow>
      if out_lo = in_lo then
        (if out_hi \<noteq> in_hi then a_to_a_b_to_d else a_to_a_b_to_b)
      else if out_lo = in_hi then
        (if out_hi = in_lo then a_to_b_b_to_a else a_to_b_b_to_d)
      else
        (if out_hi = in_lo then a_to_c_b_to_a
         else if out_hi = in_hi then a_to_c_b_to_b
         else a_to_c_b_to_d))"

text \<open>
  The code of each subcase: the helper calls of its branch and the code at the label the
  branch jumps to.
\<close>

fun Minus64Bit_code ::
  "minus64_case \<Rightarrow> gp_reg \<Rightarrow> gp_reg \<Rightarrow> gp_reg \<Rightarrow> gp_reg \<Rightarrow> insn list" where
  "Minus64Bit_code a_to_a_b_to_d in_lo in_hi out_lo out_hi =
     [Xorl out_hi out_hi, Negl out_lo, Sbbl in_hi out_hi]"
| "Minus64Bit_code a_to_a_b_to_b in_lo in_hi out_lo out_hi =
     [Negl out_hi, Negl out_lo, Sbbl0 out_hi]"
| "Minus64Bit_code a_to_b_b_to_a in_lo in_hi out_lo out_hi =
     [Xchgl in_lo in_hi, Negl out_hi, Negl out_lo, Sbbl0 out_hi]"
| "Minus64Bit_code a_to_b_b_to_d in_lo in_hi out_lo out_hi =
     [Movl in_hi out_hi, Movl in_lo out_lo, Negl out_hi, Negl out_lo, Sbbl0 out_hi]"
| "Minus64Bit_code a_to_c_b_to_a in_lo in_hi out_lo out_hi =
     [Movl in_lo out_lo, Xorl out_hi out_hi, Negl out_lo, Sbbl in_hi out_hi]"
| "Minus64Bit_code a_to_c_b_to_b in_lo in_hi out_lo out_hi =
     [Movl in_lo out_lo, Negl out_hi, Negl out_lo, Sbbl0 out_hi]"
| "Minus64Bit_code a_to_c_b_to_d in_lo in_hi out_lo out_hi =
     [Movl in_lo out_lo, Xorl out_hi out_hi, Negl out_lo, Sbbl in_hi out_hi]"

text \<open>
  The format string of the call of \<open>ia32_emitf\<close> that prints an instruction, and the
  format strings of what the emitter prints for given registers: the instruction sequence
  without its registers.
\<close>

fun insn_format :: "insn \<Rightarrow> string" where
  "insn_format (Xchgl s d) = ''xchgl %R, %R''"
| "insn_format (Movl s d) = ''movl %R, %R''"
| "insn_format (Negl r) = ''negl %R''"
| "insn_format (Sbbl0 r) = ''sbbl $0, %R''"
| "insn_format (Sbbl s d) = ''sbbl %R, %R''"
| "insn_format (Xorl s d) = ''xorl %R, %R''"

definition Minus64Bit_formats :: "gp_reg \<times> gp_reg \<times> gp_reg \<times> gp_reg \<Rightarrow> string list" where
  "Minus64Bit_formats r =
     (case r of (in_lo, in_hi, out_lo, out_hi) \<Rightarrow>
        map insn_format (emit_ia32_Minus64Bit in_lo in_hi out_lo out_hi))"

text \<open>The binary emitter of the same node, with its helpers.\<close>

definition bemit_helper_mov :: "gp_reg \<Rightarrow> gp_reg \<Rightarrow> emitted list" where
  "bemit_helper_mov s d = bemit8 0x8B @ bemit_modrr s d"

definition bemit_helper_neg :: "gp_reg \<Rightarrow> fatal + emitted list" where
  "bemit_helper_neg reg =
     (case bemit_modru reg 3 of Inl e \<Rightarrow> Inl e | Inr bs \<Rightarrow> Inr (bemit8 0xF7 @ bs))"

definition bemit_helper_sbb0 :: "gp_reg \<Rightarrow> fatal + emitted list" where
  "bemit_helper_sbb0 reg =
     (case bemit_modru reg 3 of Inl e \<Rightarrow> Inl e | Inr bs \<Rightarrow> Inr (bemit8 0x83 @ bs @ bemit8 0))"

definition bemit_helper_sbb :: "gp_reg \<Rightarrow> gp_reg \<Rightarrow> emitted list" where
  "bemit_helper_sbb s d = bemit8 0x1B @ bemit_modrr s d"

definition bemit_helper_xchg :: "gp_reg \<Rightarrow> gp_reg \<Rightarrow> emitted list" where
  "bemit_helper_xchg s d =
     (if s = REG_GP_EAX then bemit8 (0x90 + reg_gp_map d)
      else if d = REG_GP_EAX then bemit8 (0x90 + reg_gp_map s)
      else bemit8 0x87 @ bemit_modrr s d)"

definition bemit_helper_zero :: "gp_reg \<Rightarrow> emitted list" where
  "bemit_helper_zero reg = bemit8 0x33 @ bemit_modrr reg reg"

text \<open>Sequencing of emit steps that may abort.\<close>

definition then_emit ::
  "fatal + emitted list \<Rightarrow> fatal + emitted list \<Rightarrow> fatal + emitted list" where
  "then_emit x y =
     (case x of
        Inl e \<Rightarrow> Inl e
      | Inr bs \<Rightarrow> (case y of Inl e \<Rightarrow> Inl e | Inr cs \<Rightarrow> Inr (bs @ cs)))"

definition bnormal_neg :: "gp_reg \<Rightarrow> gp_reg \<Rightarrow> fatal + emitted list" where
  "bnormal_neg out_lo out_hi =
     then_emit (bemit_helper_neg out_hi)
       (then_emit (bemit_helper_neg out_lo) (bemit_helper_sbb0 out_hi))"

definition bzero_neg :: "gp_reg \<Rightarrow> gp_reg \<Rightarrow> gp_reg \<Rightarrow> fatal + emitted list" where
  "bzero_neg in_hi out_lo out_hi =
     then_emit (Inr (bemit_helper_zero out_hi))
       (then_emit (bemit_helper_neg out_lo) (Inr (bemit_helper_sbb in_hi out_hi)))"

definition bemit_minus64bit ::
  "gp_reg \<Rightarrow> gp_reg \<Rightarrow> gp_reg \<Rightarrow> gp_reg \<Rightarrow> fatal + emitted list" where
  "bemit_minus64bit in_lo in_hi out_lo out_hi =
     (if out_lo = in_lo then
        (if out_hi \<noteq> in_hi then bzero_neg in_hi out_lo out_hi
         else bnormal_neg out_lo out_hi)
      else if out_lo = in_hi then
        (if out_hi = in_lo
         then then_emit (Inr (bemit_helper_xchg in_lo in_hi)) (bnormal_neg out_lo out_hi)
         else then_emit (Inr (bemit_helper_mov in_hi out_hi))
                (then_emit (Inr (bemit_helper_mov in_lo out_lo)) (bnormal_neg out_lo out_hi)))
      else
        (if out_hi = in_lo
         then then_emit (Inr (bemit_helper_mov in_lo out_lo)) (bzero_neg in_hi out_lo out_hi)
         else if out_hi = in_hi
         then then_emit (Inr (bemit_helper_mov in_lo out_lo)) (bnormal_neg out_lo out_hi)
         else then_emit (Inr (bemit_helper_mov in_lo out_lo)) (bzero_neg in_hi out_lo out_hi)))"

text \<open>The bytes the binary helpers write for one instruction of the textual emitter.\<close>

fun bemit_insn :: "insn \<Rightarrow> fatal + emitted list" where
  "bemit_insn (Xchgl s d) = Inr (bemit_helper_xchg s d)"
| "bemit_insn (Movl s d) = Inr (bemit_helper_mov s d)"
| "bemit_insn (Negl r) = bemit_helper_neg r"
| "bemit_insn (Sbbl0 r) = bemit_helper_sbb0 r"
| "bemit_insn (Sbbl s d) = Inr (bemit_helper_sbb s d)"
| "bemit_insn (Xorl s d) = Inr (bemit8 0x33 @ bemit_modrr s d)"

fun bemit_insns :: "insn list \<Rightarrow> fatal + emitted list" where
  "bemit_insns [] = Inr []"
| "bemit_insns (i # is) = then_emit (bemit_insn i) (bemit_insns is)"


subsection \<open>Conditional jumps\<close>

text \<open>
  The condition codes \<open>ia32_condition_code_t\<close> are declared in the attribute header of the
  back end, which is not under \<open>src/\<close>: the emitter names the enumerators below, and the
  numbers behind them are a parameter of the model (\<open>cc_value\<close>), as are the functions
  \<open>ia32_negate_condition_code\<close> and \<open>ia32_invert_condition_code\<close>. A condition code
  as the emitter handles it is a 32 bit number: it tests the bits \<open>ia32_cc_negated\<close> and
  \<open>ia32_cc_float_parity_cases\<close> of it.
\<close>

datatype ia32_condition_code_t =
    ia32_cc_negated
  | ia32_cc_overflow
  | ia32_cc_below
  | ia32_cc_equal
  | ia32_cc_below_equal
  | ia32_cc_sign
  | ia32_cc_parity
  | ia32_cc_less
  | ia32_cc_less_equal
  | ia32_cc_not_overflow
  | ia32_cc_above_equal
  | ia32_cc_not_equal
  | ia32_cc_above
  | ia32_cc_not_sign
  | ia32_cc_not_parity
  | ia32_cc_greater_equal
  | ia32_cc_greater
  | ia32_cc_float_parity_cases
  | ia32_cc_additional_float_cases
  | ia32_cc_float_equal
  | ia32_cc_float_below
  | ia32_cc_float_below_equal
  | ia32_cc_float_not_equal
  | ia32_cc_float_unordered_above_equal
  | ia32_cc_float_unordered_above
  | ia32_cc_float_unordered_below_equal
  | ia32_cc_float_unordered_below
  | ia32_cc_float_above
  | ia32_cc_float_above_equal

record cc_decl =
  cc_value :: "ia32_condition_code_t \<Rightarrow> 32 word"
  ia32_negate_condition_code :: "32 word \<Rightarrow> 32 word"
  ia32_invert_condition_code :: "32 word \<Rightarrow> 32 word"

text \<open>
  \<open>ia32_emit_condition_code\<close>: the \<open>case\<close> labels of its \<open>switch\<close> in the order of the
  source, each with the suffix it prints. A code that is none of them, and the two labels
  \<open>ia32_cc_float_parity_cases\<close> and \<open>ia32_cc_additional_float_cases\<close> that only
  \<open>break\<close>, reach the \<open>panic\<close> behind the \<open>switch\<close>.
\<close>

definition condition_code_cases :: "(ia32_condition_code_t \<times> string) list" where
  "condition_code_cases =
     [(ia32_cc_overflow, ''o''),
      (ia32_cc_not_overflow, ''no''),
      (ia32_cc_float_below, ''b''),
      (ia32_cc_float_unordered_below, ''b''),
      (ia32_cc_below, ''b''),
      (ia32_cc_float_above_equal, ''ae''),
      (ia32_cc_float_unordered_above_equal, ''ae''),
      (ia32_cc_above_equal, ''ae''),
      (ia32_cc_float_equal, ''e''),
      (ia32_cc_equal, ''e''),
      (ia32_cc_float_not_equal, ''ne''),
      (ia32_cc_not_equal, ''ne''),
      (ia32_cc_float_below_equal, ''be''),
      (ia32_cc_float_unordered_below_equal, ''be''),
      (ia32_cc_below_equal, ''be''),
      (ia32_cc_float_above, ''a''),
      (ia32_cc_float_unordered_above, ''a''),
      (ia32_cc_above, ''a''),
      (ia32_cc_sign, ''s''),
      (ia32_cc_not_sign, ''ns''),
      (ia32_cc_parity, ''p''),
      (ia32_cc_not_parity, ''np''),
      (ia32_cc_less, ''l''),
      (ia32_cc_greater_equal, ''ge''),
      (ia32_cc_less_equal, ''le''),
      (ia32_cc_greater, ''g'')]"

definition ia32_emit_condition_code :: "cc_decl \<Rightarrow> 32 word \<Rightarrow> fatal + string" where
  "ia32_emit_condition_code D cc =
     (case find (\<lambda>(c, s). cc = cc_value D c) condition_code_cases of
        Some (c, s) \<Rightarrow> Inr s
      | None \<Rightarrow> Inl (Panic ''Invalid ia32 condition code''))"

text \<open>
  The nodes that \<open>determine_final_cc\<close> and \<open>find_original_value\<close> walk over: a node has
  an opcode (only the opcodes the two functions test are told apart), its inputs, its
  projection number (\<open>get_Proj_proj\<close>), and the \<open>ins_permuted\<close> flag of its ia32
  attribute. The graph is the list of its nodes and a node pointer is an index of the
  list; an index outside the list is a pointer to no node.
\<close>

datatype emit_op =
    o_be_Copy
  | o_be_CopyKeep
  | o_be_Perm
  | o_be_MemPerm
  | o_Proj
  | o_Phi
  | o_ia32_Load
  | o_ia32_Store
  | o_ia32_Sahf
  | o_ia32_FucomFnstsw
  | o_ia32_FucomppFnstsw
  | o_ia32_FtstFnstsw
  | o_other

record emit_irn =
  e_op :: emit_op
  e_in :: "nat list"
  e_proj :: nat
  ins_permuted :: bool

type_synonym emit_graph = "emit_irn list"

text \<open>
  The input positions \<open>n_ia32_Sahf_val\<close>, \<open>n_ia32_Load_mem\<close> and \<open>n_ia32_Store_val\<close>
  come from the generated node header, which is not under \<open>src/\<close>; they are parameters.
\<close>

record node_decl =
  n_ia32_Sahf_val :: nat
  n_ia32_Load_mem :: nat
  n_ia32_Store_val :: nat

text \<open>
  Modelled from the spec: \<open>get_irn_n\<close> of the IR library returns the input at a position
  and asserts that the position is one of the node.
\<close>

definition emit_get_irn_n :: "emit_graph \<Rightarrow> nat \<Rightarrow> nat \<Rightarrow> fatal + nat" where
  "emit_get_irn_n g node n =
     (if node < length g \<and> n < length (e_in (g ! node)) then Inr (e_in (g ! node) ! n)
      else Inl (Assertion_failed ''get_irn_n''))"

text \<open>
  \<open>find_original_value\<close>. The C function marks a node visited, then either returns the
  node itself, or returns what the recursive call on one input returns, or (for a Phi)
  tries the inputs in turn until a call returns a node. A call on a visited node returns
  \<open>NULL\<close>, and a \<open>NULL\<close> travels up to the innermost Phi loop, which goes on with its
  next input. \<open>original_value_step\<close> is the case distinction on one unvisited node:
  \<open>Inr node\<close> when the node is returned, \<open>Inl ins\<close> with the inputs the search goes on
  with. \<open>find_original_value\<close> is the search, with the inputs still to be tried by the
  Phi loops on the way as a list; the empty list is the result \<open>NULL\<close>. The visited marks
  make the search end: every step either marks one more node of the graph or shortens the
  list.
\<close>

definition original_value_step ::
  "node_decl \<Rightarrow> emit_graph \<Rightarrow> nat \<Rightarrow> fatal + (nat list + nat)" where
  "original_value_step N g node =
     (let via = (\<lambda>pred n. case emit_get_irn_n g pred n of
                             Inl e \<Rightarrow> Inl e
                           | Inr x \<Rightarrow> Inr (Inl [x]))
      in
      if e_op (g ! node) = o_be_Copy then via node 0
      else if e_op (g ! node) = o_be_CopyKeep then via node 0
      else if e_op (g ! node) = o_Proj then
        (case emit_get_irn_n g node 0 of
           Inl e \<Rightarrow> Inl e
         | Inr pred \<Rightarrow>
             if \<not> pred < length g then Inl Null_deref
             else if e_op (g ! pred) = o_be_Perm then via pred (e_proj (g ! node))
             else if e_op (g ! pred) = o_be_MemPerm then via pred (e_proj (g ! node) + 1)
             else if e_op (g ! pred) = o_ia32_Load then via pred (n_ia32_Load_mem N)
             else if e_op (g ! pred) = o_ia32_Store then via pred (n_ia32_Store_val N)
             else Inr (Inr node))
      else if e_op (g ! node) = o_Phi then Inr (Inl (e_in (g ! node)))
      else Inr (Inr node))"

function find_original_value ::
  "node_decl \<Rightarrow> emit_graph \<Rightarrow> nat set \<Rightarrow> nat list \<Rightarrow> fatal + nat option" where
  "find_original_value N g visited [] = Inr None"
| "find_original_value N g visited (node # pending) =
     (if \<not> node < length g then Inl Null_deref
      else if node \<in> visited then find_original_value N g visited pending
      else (case original_value_step N g node of
              Inl e \<Rightarrow> Inl e
            | Inr (Inr res) \<Rightarrow> Inr (Some res)
            | Inr (Inl ins) \<Rightarrow> find_original_value N g (insert node visited) (ins @ pending)))"
  by pat_completeness auto
termination
proof (relation "measures [\<lambda>(N, g, visited, pending). card ({..<length g} - visited),
                           \<lambda>(N, g, visited, pending). length pending]")
  show "wf (measures [\<lambda>(N, g, visited, pending). card ({..<length g} - visited),
                           \<lambda>(N, g, visited, pending). length pending])" by simp
next
  fix N :: node_decl and g :: emit_graph and visited :: "nat set" and node :: nat
    and pending :: "nat list"
  show "((N, g, visited, pending), (N, g, visited, node # pending)) \<in> measures
          [\<lambda>(N, g, visited, pending). card ({..<length g} - visited),
           \<lambda>(N, g, visited, pending). length pending]" by simp
next
  fix N :: node_decl and g :: emit_graph and visited :: "nat set" and node :: nat
    and pending ins :: "nat list"
  assume a: "\<not> \<not> node < length g" "node \<notin> visited"
  have "{..<length g} - insert node visited = ({..<length g} - visited) - {node}" by auto
  moreover have "node \<in> {..<length g} - visited" using a by simp
  ultimately have "card ({..<length g} - insert node visited) < card ({..<length g} - visited)"
    using card_Diff1_less [of "{..<length g} - visited" node] by simp
  then show "((N, g, insert node visited, ins @ pending), (N, g, visited, node # pending)) \<in>
          measures
          [\<lambda>(N, g, visited, pending). card ({..<length g} - visited),
           \<lambda>(N, g, visited, pending). length pending]" by simp
qed

text \<open>
  Modelled from the spec: \<open>skip_Proj\<close> of the IR library returns the predecessor of a
  Proj and every other node as it is.
\<close>

definition skip_Proj :: "emit_graph \<Rightarrow> nat \<Rightarrow> fatal + nat" where
  "skip_Proj g node =
     (if \<not> node < length g then Inl Null_deref
      else if e_op (g ! node) = o_Proj then emit_get_irn_n g node 0
      else Inr node)"

text \<open>
  The test \<open>is_ia32_FucomFnstsw(cmp) || is_ia32_FucomppFnstsw(cmp) ||
  is_ia32_FtstFnstsw(cmp)\<close>, which \<open>determine_final_cc\<close> makes twice.
\<close>

definition is_fnstsw :: "emit_graph \<Rightarrow> nat \<Rightarrow> bool" where
  "is_fnstsw g cmp \<longleftrightarrow>
     e_op (g ! cmp) = o_ia32_FucomFnstsw \<or> e_op (g ! cmp) = o_ia32_FucomppFnstsw \<or>
     e_op (g ! cmp) = o_ia32_FtstFnstsw"

text \<open>
  The branch of \<open>determine_final_cc\<close> for flags that come from a \<open>Sahf\<close>: the compare
  behind it, found through \<open>find_original_value\<close> (on a fresh set of visited marks,
  \<open>inc_irg_visited\<close>) when the input of the \<open>Sahf\<close> is not a compare itself, with the
  two assertions on what was found.
\<close>

definition sahf_compare :: "node_decl \<Rightarrow> emit_graph \<Rightarrow> nat \<Rightarrow> fatal + nat" where
  "sahf_compare N g flags =
     (case emit_get_irn_n g flags (n_ia32_Sahf_val N) of
        Inl e \<Rightarrow> Inl e
      | Inr cmp \<Rightarrow>
          if \<not> cmp < length g then Inl Null_deref
          else if \<not> is_fnstsw g cmp then
            (case find_original_value N g {} [cmp] of
               Inl e \<Rightarrow> Inl e
             | Inr None \<Rightarrow> Inl (Assertion_failed ''cmp != NULL'')
             | Inr (Some cmp') \<Rightarrow>
                 if is_fnstsw g cmp' then Inr cmp'
                 else Inl (Assertion_failed
                   ''is_ia32_FucomFnstsw(cmp) || is_ia32_FucomppFnstsw(cmp) || is_ia32_FtstFnstsw(cmp)''))
          else Inr cmp)"

text \<open>
  A control flow Proj: its block (\<open>get_nodes_block\<close>) and its target block
  (\<open>get_cfop_target_block\<close>, the link of the Proj). The Projs of a \<open>Jcc\<close> have mode
  \<open>X\<close>, which \<open>get_cfop_target_block\<close> asserts.
\<close>

record cf_proj =
  proj_block :: nat
  proj_target :: nat

text \<open>
  A \<open>Jcc\<close> node: its condition code (\<open>get_ia32_condcode\<close>), its inputs (the flags are
  input 0), and the Projs that \<open>get_proj\<close> finds for \<open>pn_ia32_Jcc_true\<close> and
  \<open>pn_ia32_Jcc_false\<close>.
\<close>

record jcc_node =
  condcode :: "32 word"
  jcc_in :: "nat list"
  proj_true :: "cf_proj option"
  proj_false :: "cf_proj option"

text \<open>
  The block schedule (\<open>get_prev_block_sched\<close>, the link of a block: the block emitted
  before it) and \<open>be_options.verbose_asm\<close>.
\<close>

record emit_env =
  prev_block_sched :: "nat \<Rightarrow> nat option"
  verbose_asm :: bool

text \<open>
  The lines \<open>emit_ia32_Jcc\<close> prints: \<open>jp\<close> to the label of a block, \<open>jp 1f\<close>, the
  conditional jump \<open>j\<close> with the suffix of a condition code to the label of a block, the
  local label \<open>1:\<close>, the comment of a fallthrough, and \<open>jmp\<close> to the label of a block.
\<close>

datatype asm_line =
    Jp nat
  | Jp_1f
  | Jcc string nat
  | Label_1
  | Fallthrough_comment nat
  | Jmp nat

text \<open>
  \<open>determine_final_cc\<close>: the node whose attribute is read is the producer of the flags
  (behind a Proj), or the compare behind it when the producer is a \<open>Sahf\<close>; the code is
  inverted when that node has its inputs permuted.
\<close>

definition determine_final_cc ::
  "cc_decl \<Rightarrow> node_decl \<Rightarrow> emit_graph \<Rightarrow> jcc_node \<Rightarrow> nat \<Rightarrow> 32 word \<Rightarrow> fatal + 32 word" where
  "determine_final_cc D N g node flags_pos cc =
     (if \<not> flags_pos < length (jcc_in node) then Inl (Assertion_failed ''get_irn_n'')
      else
        (case skip_Proj g (jcc_in node ! flags_pos) of
           Inl e \<Rightarrow> Inl e
         | Inr flags \<Rightarrow>
             if \<not> flags < length g then Inl Null_deref
             else
               (case (if e_op (g ! flags) = o_ia32_Sahf then sahf_compare N g flags
                      else Inr flags) of
                  Inl e \<Rightarrow> Inl e
                | Inr attr_node \<Rightarrow>
                    Inr (if ins_permuted (g ! attr_node) then ia32_invert_condition_code D cc
                         else cc))))"

definition can_be_fallthrough :: "emit_env \<Rightarrow> cf_proj \<Rightarrow> bool" where
  "can_be_fallthrough env node =
     (let target_block = proj_target node;
          block = proj_block node
      in prev_block_sched env target_block = Some block)"

text \<open>The jumps on the parity flag, with \<open>need_parity_label\<close>.\<close>

definition jcc_parity ::
  "cc_decl \<Rightarrow> emit_env \<Rightarrow> 32 word \<Rightarrow> cf_proj \<Rightarrow> cf_proj \<Rightarrow> asm_line list \<times> bool" where
  "jcc_parity D env cc p_true p_false =
     (if cc AND cc_value D ia32_cc_float_parity_cases \<noteq> 0 then
        (if cc AND cc_value D ia32_cc_negated \<noteq> 0 then ([Jp (proj_target p_true)], False)
         else if can_be_fallthrough env p_false then ([Jp_1f], True)
         else ([Jp (proj_target p_false)], False))
      else ([], False))"

text \<open>
  \<open>emit_ia32_Jcc\<close>. The format \<open>j%PX %L\<close> prints the suffix of the code through
  \<open>ia32_emit_condition_code\<close>, which aborts on a code without suffix.
\<close>

definition emit_ia32_Jcc ::
  "cc_decl \<Rightarrow> node_decl \<Rightarrow> emit_graph \<Rightarrow> emit_env \<Rightarrow> jcc_node \<Rightarrow> fatal + asm_line list" where
  "emit_ia32_Jcc D N g env node =
     (case determine_final_cc D N g node 0 (condcode node) of
        Inl e \<Rightarrow> Inl e
      | Inr cc \<Rightarrow>
      (case proj_true node of
        None \<Rightarrow> Inl (Assertion_failed ''Jcc without true Proj'')
      | Some p_true \<Rightarrow>
      (case proj_false node of
        None \<Rightarrow> Inl (Assertion_failed ''Jcc without false Proj'')
      | Some p_false \<Rightarrow>
          (let (p_true1, p_false1, cc1) =
                 (if can_be_fallthrough env p_true
                  then (p_false, p_true, ia32_negate_condition_code D cc)
                  else (p_true, p_false, cc));
               (parity, need_parity_label) = jcc_parity D env cc1 p_true1 p_false1
           in case ia32_emit_condition_code D cc1 of
                Inl e \<Rightarrow> Inl e
              | Inr suffix \<Rightarrow>
                  Inr (parity @ [Jcc suffix (proj_target p_true1)] @
                       (if need_parity_label then [Label_1] else []) @
                       (if can_be_fallthrough env p_false1
                        then (if verbose_asm env
                              then [Fallthrough_comment (proj_target p_false1)] else [])
                        else [Jmp (proj_target p_false1)]))))))"

subsection \<open>Example inputs of the emitter\<close>

text \<open>
  An instance of the condition code declarations: the low four bits of a code are the
  hardware condition (\<open>pnc2cc\<close>), bit 0 negates it, bit 5 marks the floating point codes
  that need the parity flag, bit 4 the other floating point codes. The examples have no
  permuted inputs, so the inversion is not called; it is the identity here.
\<close>

fun example_cc_value :: "ia32_condition_code_t \<Rightarrow> 32 word" where
  "example_cc_value ia32_cc_negated = 0x01"
| "example_cc_value ia32_cc_overflow = 0x00"
| "example_cc_value ia32_cc_below = 0x02"
| "example_cc_value ia32_cc_equal = 0x04"
| "example_cc_value ia32_cc_below_equal = 0x06"
| "example_cc_value ia32_cc_sign = 0x08"
| "example_cc_value ia32_cc_parity = 0x0A"
| "example_cc_value ia32_cc_less = 0x0C"
| "example_cc_value ia32_cc_less_equal = 0x0E"
| "example_cc_value ia32_cc_not_overflow = 0x01"
| "example_cc_value ia32_cc_above_equal = 0x03"
| "example_cc_value ia32_cc_not_equal = 0x05"
| "example_cc_value ia32_cc_above = 0x07"
| "example_cc_value ia32_cc_not_sign = 0x09"
| "example_cc_value ia32_cc_not_parity = 0x0B"
| "example_cc_value ia32_cc_greater_equal = 0x0D"
| "example_cc_value ia32_cc_greater = 0x0F"
| "example_cc_value ia32_cc_float_parity_cases = 0x20"
| "example_cc_value ia32_cc_additional_float_cases = 0x10"
| "example_cc_value ia32_cc_float_equal = 0x34"
| "example_cc_value ia32_cc_float_below = 0x32"
| "example_cc_value ia32_cc_float_below_equal = 0x36"
| "example_cc_value ia32_cc_float_not_equal = 0x35"
| "example_cc_value ia32_cc_float_unordered_above_equal = 0x33"
| "example_cc_value ia32_cc_float_unordered_above = 0x37"
| "example_cc_value ia32_cc_float_unordered_below_equal = 0x16"
| "example_cc_value ia32_cc_float_unordered_below = 0x12"
| "example_cc_value ia32_cc_float_above = 0x17"
| "example_cc_value ia32_cc_float_above_equal = 0x13"

definition example_cc_decl :: cc_decl where
  "example_cc_decl =
     \<lparr>cc_value = example_cc_value,
      ia32_negate_condition_code = (\<lambda>cc. cc XOR 0x01),
      ia32_invert_condition_code = (\<lambda>cc. cc)\<rparr>"

definition example_node_decl :: node_decl where
  "example_node_decl = \<lparr>n_ia32_Sahf_val = 0, n_ia32_Load_mem = 2, n_ia32_Store_val = 3\<rparr>"

text \<open>
  A graph of the nodes that produce flags: node 0 is an integer compare, node 1 a
  floating point compare, node 2 a copy of it, node 3 a \<open>Sahf\<close> of the copy; node 4 is a
  Phi of itself and of node 0, node 5 a \<open>Sahf\<close> of the Phi.
\<close>

definition example_emit_graph :: emit_graph where
  "example_emit_graph =
     [\<lparr>e_op = o_other, e_in = [], e_proj = 0, ins_permuted = False\<rparr>,
      \<lparr>e_op = o_ia32_FucomFnstsw, e_in = [], e_proj = 0, ins_permuted = False\<rparr>,
      \<lparr>e_op = o_be_Copy, e_in = [1], e_proj = 0, ins_permuted = False\<rparr>,
      \<lparr>e_op = o_ia32_Sahf, e_in = [2], e_proj = 0, ins_permuted = False\<rparr>,
      \<lparr>e_op = o_Phi, e_in = [4, 0], e_proj = 0, ins_permuted = False\<rparr>,
      \<lparr>e_op = o_ia32_Sahf, e_in = [4], e_proj = 0, ins_permuted = False\<rparr>]"

text \<open>
  The block schedule \<open>[0, 1, 2]\<close>, and a \<open>Jcc\<close> with given code and flags in block 0
  whose true Proj goes to block 1 and whose false Proj goes to block 2.
\<close>

definition example_sched :: emit_env where
  "example_sched =
     \<lparr>prev_block_sched = (\<lambda>b. if b = 1 then Some 0 else if b = 2 then Some 1 else None),
      verbose_asm = False\<rparr>"

definition example_jcc :: "32 word \<Rightarrow> nat \<Rightarrow> jcc_node" where
  "example_jcc cc flags =
     \<lparr>condcode = cc, jcc_in = [flags],
      proj_true = Some \<lparr>proj_block = 0, proj_target = 1\<rparr>,
      proj_false = Some \<lparr>proj_block = 0, proj_target = 2\<rparr>\<rparr>"

text \<open>An address mode of a base register and an offset, without entity and index.\<close>

definition example_am :: "gp_reg option \<Rightarrow> int \<Rightarrow> ia32_am" where
  "example_am base offs =
     \<lparr>am_sc = None, am_sc_sign = False, am_offs_int = offs, am_base = base,
      am_index = None, am_scale = 0\<rparr>"

section \<open>Properties of the chordal register allocator\<close>

lemma edge_init_commute: "edge_init a b = edge_init b a"
  by (simp add: edge_init_def)

lemma set_find_None: "set_find cmp s key h = None \<longleftrightarrow> (\<forall>(h', e) \<in> set s. \<not> (h' = h \<and> cmp e key = 0))"
  by (auto simp: set_find_def find_None_iff)

lemma set_find_Some: "set_find cmp s key h = Some e \<Longrightarrow> (h, e) \<in> set s \<and> cmp e key = 0"
  apply (clarsimp simp: set_find_def find_Some_iff)
  apply (metis nth_mem)
  done

lemma if_edge_cmp_0: "if_edge_cmp e1 e2 = 0 \<longleftrightarrow> e1 = e2"
  by (auto simp: if_edge_cmp_def)

lemma edges_inv_insert:
  assumes "edges_inv es" "s \<noteq> t"
  shows "edges_inv (set_insert if_edge_cmp es (edge_init s t) (IF_EDGE_HASH (edge_init s t)))"
proof (cases "set_find if_edge_cmp es (edge_init s t) (IF_EDGE_HASH (edge_init s t))")
  case None
  have lt: "src (edge_init s t) < tgt (edge_init s t)"
    using assms(2) by (simp add: edge_init_def)
  have "edge_init s t \<notin> snd ` set es"
  proof
    assume "edge_init s t \<in> snd ` set es"
    then obtain h where "(h, edge_init s t) \<in> set es" by auto
    moreover from this assms(1) have "h = src (edge_init s t)" by (auto simp: edges_inv_def)
    ultimately show False using None
      by (auto simp: set_find_None if_edge_cmp_0 IF_EDGE_HASH_def)
  qed
  with None assms(1) lt show ?thesis
    by (auto simp: set_insert_def edges_inv_def IF_EDGE_HASH_def)
next
  case (Some e)
  with assms(1) show ?thesis by (simp add: set_insert_def)
qed

lemma edges_add_if:
  "edges (add_if env s t) = set_insert if_edge_cmp (edges env) (edge_init s t) (IF_EDGE_HASH (edge_init s t))"
  by (simp add: add_if_def Let_def)

lemma live_add_if: "live (add_if env s t) = live env"
  by (simp add: add_if_def Let_def)

lemma edges_inv_foldl_add_if:
  "edges_inv (edges env) \<Longrightarrow> \<forall>elm \<in> set elms. elm \<noteq> irn \<Longrightarrow>
   edges_inv (edges (foldl (\<lambda>e elm. add_if e (int irn) (int elm)) env elms))"
proof (induction elms arbitrary: env)
  case Nil
  then show ?case by simp
next
  case (Cons a elms)
  have "edges_inv (edges (add_if env (int irn) (int a)))"
    using Cons.prems by (simp add: edges_add_if edges_inv_insert)
  then show ?case using Cons.IH Cons.prems(2) by simp
qed

lemma border_add_keeps:
  "border_add env bl irn stp prs d r = Inr env' \<Longrightarrow> edges env' = edges env \<and> live env' = live env"
  by (auto simp: border_add_def Let_def split: if_splits)

lemma border_def_keeps:
  "border_def env bl irn r = Inr env' \<Longrightarrow> edges env' = edges env \<and> live env' = live env"
  by (auto simp: border_def_def dest!: border_add_keeps)

lemma border_use_keeps:
  "border_use env bl irn r = Inr env' \<Longrightarrow> edges env' = edges env \<and> live env' = live env"
  by (auto simp: border_use_def dest!: border_add_keeps)

lemma not_in_foreach_clear: "irn \<notin> set (bitset_foreach (bitset_clear bs irn))"
  by (auto simp: bitset_foreach_def bitset_clear_def)

lemma pressure_insn_def_inv:
  "edges_inv (edges env) \<Longrightarrow> pressure_insn_def g bl irn env = Inr env' \<Longrightarrow> edges_inv (edges env')"
  apply (auto simp: pressure_insn_def_def Let_def split: if_splits sum.splits)
  apply (frule border_def_keeps)
  apply (rule edges_inv_foldl_add_if)
   apply (auto simp: not_in_foreach_clear)
  done

lemma pressure_ops_inv:
  "edges_inv (edges env) \<Longrightarrow> pressure_ops g bl ops env = Inr env' \<Longrightarrow> edges_inv (edges env')"
  by (induction g bl ops env rule: pressure_ops.induct)
     (auto split: if_splits sum.splits dest!: border_use_keeps)

lemma pressure_live_end_inv:
  "edges_inv (edges env) \<Longrightarrow> pressure_live_end g bl irns env = Inr env' \<Longrightarrow> edges_inv (edges env')"
  by (induction g bl irns env rule: pressure_live_end.induct)
     (auto simp: Let_def split: if_splits sum.splits dest!: border_use_keeps)

lemma pressure_live_in_inv:
  "edges_inv (edges env) \<Longrightarrow> pressure_live_in g bl irns env = Inr env' \<Longrightarrow> edges_inv (edges env')"
  by (induction g bl irns env rule: pressure_live_in.induct)
     (auto split: if_splits sum.splits dest!: border_def_keeps)

lemma pressure_sched_inv:
  "edges_inv (edges env) \<Longrightarrow> pressure_sched g bl irns env = Inr env' \<Longrightarrow> edges_inv (edges env')"
proof (induction g bl irns env rule: pressure_sched.induct)
  case (1 g bl env)
  then show ?case by simp
next
  case (2 g bl irn irns env)
  let ?env0 = "env\<lparr>irn_color := (irn_color env)(irn := NO_COLOR)\<rparr>"
  from "2.prems"(2) obtain env1 where e1: "pressure_insn_def g bl irn ?env0 = Inr env1"
    by (auto simp: Let_def split: sum.splits)
  from "2.prems"(2) e1 obtain env2 where
    e2: "(if \<not> be_is_Phi g irn then pressure_ops g bl (irn_ins g irn) env1 else Inr env1) = Inr env2"
    by (auto simp: Let_def split: sum.splits)
  from "2.prems"(2) e1 e2 have
    e3: "pressure_sched g bl irns (env2\<lparr>cur_step := cur_step env2 + 1\<rparr>) = Inr env'"
    by (auto simp: Let_def split: sum.splits)
  have i1: "edges_inv (edges env1)"
    using pressure_insn_def_inv[OF _ e1] "2.prems"(1) by simp
  have i2: "edges_inv (edges env2)"
    using e2 i1 pressure_ops_inv by (auto split: if_splits)
  show ?case
    using "2.IH"[OF refl e1 e2 _ e3] i2 by simp
qed

lemma pressure_inv:
  "edges_inv (edges env) \<Longrightarrow> pressure g bl env = Inr env' \<Longrightarrow> edges_inv (edges env')"
  unfolding pressure_def Let_def
  apply (auto split: sum.splits)
  apply (drule pressure_live_end_inv[rotated], simp)
  apply (drule pressure_sched_inv[rotated], simp)
  apply (drule pressure_live_in_inv[rotated], simp)
  apply simp
  done

lemma pressure_walk_inv:
  "edges_inv (edges env) \<Longrightarrow> pressure_walk g bls env = Inr env' \<Longrightarrow> edges_inv (edges env')"
  by (induction g bls env rule: pressure_walk.induct)
     (auto split: sum.splits dest: pressure_inv)


lemma are_connected_irrefl: "edges_inv (edges env) \<Longrightarrow> \<not> are_connected env a a"
  by (auto simp: are_connected_def Let_def set_find_None edges_inv_def if_edge_cmp_0 edge_init_def)

lemma edges_inv_unordered:
  assumes "edges_inv es" "i < length es" "j < length es"
    "{src (snd (es ! i)), tgt (snd (es ! i))} = {src (snd (es ! j)), tgt (snd (es ! j))}"
  shows "i = j"
proof -
  have a: "src (snd (es ! i)) < tgt (snd (es ! i))" "src (snd (es ! j)) < tgt (snd (es ! j))"
    using assms(1-3) by (auto simp: edges_inv_def dest!: nth_mem)
  with assms(4) have "src (snd (es ! i)) = src (snd (es ! j))" "tgt (snd (es ! i)) = tgt (snd (es ! j))"
    by (auto simp: doubleton_eq_iff)
  then have "snd (es ! i) = snd (es ! j)" by simp
  then have "map snd es ! i = map snd es ! j" using assms(2,3) by simp
  with assms(1-3) show ?thesis by (auto simp: edges_inv_def distinct_conv_nth)
qed


text \<open>
  Claim C7. After the pressure pass has run over the blocks of a graph, starting from the
  empty edge set of \<open>be_ra_chordal\<close>, every recorded edge has the lower node index first
  (strictly: no edge joins a node index to itself), \<open>are_connected\<close> is symmetric and
  anti-reflexive, and no two entries of the edge set hold the same unordered pair.
\<close>

theorem pressure_edges_canonical:
  assumes "pressure_walk g bls (be_ra_chordal_env node_count n_regs old) = Inr env"
  shows "(\<forall>(h, e) \<in> set (edges env). src e < tgt e) \<and>
         (\<forall>a b. are_connected env a b = are_connected env b a) \<and>
         (\<forall>a. \<not> are_connected env a a) \<and>
         (\<forall>i < length (edges env). \<forall>j < length (edges env).
            {src (snd (edges env ! i)), tgt (snd (edges env ! i))} =
            {src (snd (edges env ! j)), tgt (snd (edges env ! j))} \<longrightarrow> i = j)"
proof -
  have "edges_inv (edges (be_ra_chordal_env node_count n_regs old))"
    by (simp add: be_ra_chordal_env_def edges_inv_def)
  then have inv: "edges_inv (edges env)"
    using assms by (rule pressure_walk_inv)
  have sym: "are_connected env a b = are_connected env b a" for a b
    using edge_init_commute [of a b] by (simp add: are_connected_def)
  from inv have "\<forall>(h, e) \<in> set (edges env). src e < tgt e"
    by (auto simp: edges_inv_def)
  moreover from inv have "\<forall>a. \<not> are_connected env a a"
    by (simp add: are_connected_irrefl)
  moreover from inv have "\<forall>i < length (edges env). \<forall>j < length (edges env).
            {src (snd (edges env ! i)), tgt (snd (edges env ! i))} =
            {src (snd (edges env ! j)), tgt (snd (edges env ! j))} \<longrightarrow> i = j"
    using edges_inv_unordered by blast
  ultimately show ?thesis using sym by blast
qed

text \<open>
  The pass on the example block records the single edge between the nodes 1 and 2.
\<close>

theorem pressure_edges_canonical_witness:
  "(case pressure_walk wg [0] (be_ra_chordal_env 4 2 wenv) of
      Inl e \<Rightarrow> False
    | Inr env \<Rightarrow> map snd (edges env) = [\<lparr>src = 1, tgt = 2\<rparr>] \<and>
        are_connected env 2 1 \<and> are_connected env 1 2 \<and> \<not> are_connected env 2 2)"
proof -
  have ev: "(case pressure_walk wg [0] (be_ra_chordal_env 4 2 wenv) of
      Inl e \<Rightarrow> False
    | Inr env \<Rightarrow> map snd (edges env) = [\<lparr>src = 1, tgt = 2\<rparr>] \<and> are_connected env 2 1)"
    by code_simp
  then obtain env where h: "pressure_walk wg [0] (be_ra_chordal_env 4 2 wenv) = Inr env"
    and e: "map snd (edges env) = [\<lparr>src = 1, tgt = 2\<rparr>]" "are_connected env 2 1"
    by (auto split: sum.splits)
  from pressure_edges_canonical [OF h] e h show ?thesis by simp
qed

text \<open>
  Claim C10. For two nodes of the same graph, whose graph carries the environment of
  \<open>be_ra_chordal\<close>, \<open>phi_ops_interfere(a, b)\<close> and \<open>phi_ops_interfere(b, a)\<close> return,
  and return the same result: \<open>edge_init\<close> brings the smaller index to \<open>src\<close> for both.
\<close>

theorem phi_ops_interfere_commute:
  assumes "irn_irg g a = irn_irg g b" "ra_link (irn_irg g a) = Some env"
  shows "\<exists>r. phi_ops_interfere g ra_link a b = Inr r \<and> phi_ops_interfere g ra_link b a = Inr r"
  using assms edge_init_commute [of "int a" "int b"]
  by (simp add: phi_ops_interfere_def are_connected_def)

text \<open>The two queries on an environment that holds the edge between 1 and 2.\<close>

theorem phi_ops_interfere_commute_witness:
  "phi_ops_interfere wg (\<lambda>irg. Some (add_if wenv 1 2)) 1 2 = Inr True \<and>
   phi_ops_interfere wg (\<lambda>irg. Some (add_if wenv 1 2)) 2 1 = Inr True"
proof -
  have a: "irn_irg wg 1 = irn_irg wg 2" by (simp add: wg_def)
  have b: "(\<lambda>irg. Some (add_if wenv 1 2)) (irn_irg wg 1) = Some (add_if wenv 1 2)" by simp
  have c: "phi_ops_interfere wg (\<lambda>irg. Some (add_if wenv 1 2)) 1 2 = Inr True"
    by code_simp
  from phi_ops_interfere_commute [OF a b] c show ?thesis by auto
qed

lemma next_clear_full:
  assumes "\<forall>i < n. bitset_is_set bs i"
  shows "\<not> (0 \<le> bitset_next_clear bs 0 \<and> bitset_next_clear bs 0 < int n)"
proof (cases "find (\<lambda>i. \<not> bs ! i) [0..<length bs]")
  case None
  then show ?thesis by (simp add: bitset_next_clear_def)
next
  case (Some i)
  then have "\<not> bs ! i" by (auto simp: find_Some_iff)
  with assms have "\<not> i < n" by (auto simp: bitset_is_set_def)
  with Some show ?thesis by (simp add: bitset_next_clear_def)
qed

text \<open>
  Claim C4. When the assignment pass reaches the border of a local def while every one of
  the \<open>colors_n\<close> colors is marked in use, it aborts with the color-exhaustion error; and
  whenever the step for a local def succeeds, the register it assigns is a color of
  \<open>[0, colors_n)\<close> that was clear.
\<close>

theorem assign_color_exhaustion:
  "(b_is_def b \<and> b_irn b \<notin> set (live_in g bl) \<and> (\<forall>i < colors_n env. bitset_is_set (colors env) i)
      \<longrightarrow> assign_borders g bl (b # bs) env = Inl Color_exhaustion) \<and>
   (b_is_def b \<and> b_irn b \<notin> set (live_in g bl) \<and> assign_border g bl b env = Inr env'
      \<longrightarrow> (\<exists>c < colors_n env. irn_reg env' (b_irn b) = Some c \<and> \<not> bitset_is_set (colors env) c))"
proof (intro conjI impI)
  assume a: "b_is_def b \<and> b_irn b \<notin> set (live_in g bl) \<and> (\<forall>i < colors_n env. bitset_is_set (colors env) i)"
  then have "arch_register_for_index (colors_n env) (bitset_next_clear (colors env) 0) = Inl Color_exhaustion"
    using next_clear_full [of "colors_n env" "colors env"] by (simp add: arch_register_for_index_def)
  with a show "assign_borders g bl (b # bs) env = Inl Color_exhaustion"
    by (simp add: assign_border_def)
next
  assume a: "b_is_def b \<and> b_irn b \<notin> set (live_in g bl) \<and> assign_border g bl b env = Inr env'"
  let ?col = "bitset_next_clear (colors env) 0"
  from a obtain reg where r: "arch_register_for_index (colors_n env) ?col = Inr reg"
    by (auto simp: assign_border_def Let_def split: sum.splits)
  then have rng: "0 \<le> ?col" "?col < int (colors_n env)" "reg = nat ?col"
    by (auto simp: arch_register_for_index_def split: if_splits)
  from a r have "irn_reg env' (b_irn b) = Some reg"
    by (auto simp: assign_border_def Let_def split: sum.splits if_splits)
  moreover have "\<not> bitset_is_set (colors env) reg"
  proof (cases "find (\<lambda>i. \<not> colors env ! i) [0..<length (colors env)]")
    case None
    with rng show ?thesis by (simp add: bitset_next_clear_def)
  next
    case (Some i)
    then have "\<not> colors env ! i" by (auto simp: find_Some_iff)
    with Some rng show ?thesis by (simp add: bitset_next_clear_def bitset_is_set_def)
  qed
  ultimately show "\<exists>c < colors_n env. irn_reg env' (b_irn b) = Some c \<and> \<not> bitset_is_set (colors env) c"
    using rng by auto
qed

text \<open>
  A class of two registers: with both colors in use the def aborts, with color 1 clear the
  def gets register 1.
\<close>

theorem assign_color_exhaustion_witness:
  "assign_borders wg 0 [wdef] (wenv\<lparr>colors := [True, True], colors_n := 2\<rparr>) = Inl Color_exhaustion \<and>
   (case assign_border wg 0 wdef (wenv\<lparr>colors := [True, False], live := replicate 8 False, colors_n := 2\<rparr>) of
      Inl e \<Rightarrow> False | Inr env' \<Rightarrow> irn_reg env' 5 = Some 1)"
proof -
  let ?full = "wenv\<lparr>colors := [True, True], colors_n := 2\<rparr>"
  let ?free = "wenv\<lparr>colors := [True, False], live := replicate 8 False, colors_n := 2\<rparr>"
  have h1: "b_is_def wdef \<and> b_irn wdef \<notin> set (live_in wg 0) \<and>
      (\<forall>i < colors_n ?full. bitset_is_set (colors ?full) i)"
    by (simp add: wdef_def wg_def wenv_def bitset_is_set_def less_Suc_eq numeral_2_eq_2)
  have ev: "(case assign_border wg 0 wdef ?free of Inl e \<Rightarrow> False | Inr env' \<Rightarrow> irn_reg env' 5 = Some 1)"
    by code_simp
  then obtain env' where h2: "assign_border wg 0 wdef ?free = Inr env'"
    by (auto split: sum.splits)
  have h3: "b_is_def wdef \<and> b_irn wdef \<notin> set (live_in wg 0) \<and> assign_border wg 0 wdef ?free = Inr env'"
    using h2 by (simp add: wdef_def wg_def)
  from assign_color_exhaustion [of wdef wg 0 ?full "[]" env'] h1
  have c1: "assign_borders wg 0 [wdef] ?full = Inl Color_exhaustion" by blast
  from assign_color_exhaustion [of wdef wg 0 ?free "[]" env'] h3
  have "\<exists>c < colors_n ?free. irn_reg env' (b_irn wdef) = Some c \<and> \<not> bitset_is_set (colors ?free) c" by blast
  with ev h2 c1 show ?thesis by simp
qed

section \<open>Properties of GVN-PRE\<close>













lemma avail_in_pred_missing:
  "get_translated g info P expr = None \<Longrightarrow> avail_in_pred g info P expr = Inl Null_deref"
  by (simp add: avail_in_pred_def)

lemma avail_out_upd [simp]:
  "avail_out ((info(b := (info b)\<lparr>avail := x, found := y\<rparr>)) P) = avail_out (info P)"
  by simp

lemma trans_upd [simp]:
  "trans ((info(b := (info b)\<lparr>avail := x, found := y\<rparr>)) P) = trans (info P)"
  by simp

lemma get_translated_upd [simp]:
  "get_translated g (info(b := (info b)\<lparr>avail := x, found := y\<rparr>)) P expr = get_translated g info P expr"
  by (simp add: get_translated_def del: fun_upd_apply)

lemma available_expr_upd [simp]:
  "available_expr g (info(b := (info b)\<lparr>avail := x, found := y\<rparr>)) expr P = available_expr g info expr P"
  by (simp add: available_expr_def del: fun_upd_apply split: option.splits)






section \<open>Properties of the IA-32 emitter\<close>

lemma minus64_case_UNIV:
  "(UNIV :: minus64_case set) =
     {a_to_a_b_to_d, a_to_a_b_to_b, a_to_b_b_to_a, a_to_b_b_to_d,
      a_to_c_b_to_a, a_to_c_b_to_b, a_to_c_b_to_d}"
  using minus64_case.exhaust by auto

lemma Minus64Bit_case_surj: "range Minus64Bit_case = UNIV"
proof -
  have "c \<in> range Minus64Bit_case" for c
  proof (cases c)
    case a_to_a_b_to_d
    have "c = Minus64Bit_case (REG_GP_EAX, REG_GP_EDX, REG_GP_EAX, REG_GP_EBX)"
      by (simp add: Minus64Bit_case_def a_to_a_b_to_d)
    then show ?thesis by (rule range_eqI)
  next
    case a_to_a_b_to_b
    have "c = Minus64Bit_case (REG_GP_EAX, REG_GP_EDX, REG_GP_EAX, REG_GP_EDX)"
      by (simp add: Minus64Bit_case_def a_to_a_b_to_b)
    then show ?thesis by (rule range_eqI)
  next
    case a_to_b_b_to_a
    have "c = Minus64Bit_case (REG_GP_EAX, REG_GP_EDX, REG_GP_EDX, REG_GP_EAX)"
      by (simp add: Minus64Bit_case_def a_to_b_b_to_a)
    then show ?thesis by (rule range_eqI)
  next
    case a_to_b_b_to_d
    have "c = Minus64Bit_case (REG_GP_EAX, REG_GP_EDX, REG_GP_EDX, REG_GP_EBX)"
      by (simp add: Minus64Bit_case_def a_to_b_b_to_d)
    then show ?thesis by (rule range_eqI)
  next
    case a_to_c_b_to_a
    have "c = Minus64Bit_case (REG_GP_EAX, REG_GP_EDX, REG_GP_ECX, REG_GP_EAX)"
      by (simp add: Minus64Bit_case_def a_to_c_b_to_a)
    then show ?thesis by (rule range_eqI)
  next
    case a_to_c_b_to_b
    have "c = Minus64Bit_case (REG_GP_EAX, REG_GP_EDX, REG_GP_ECX, REG_GP_EDX)"
      by (simp add: Minus64Bit_case_def a_to_c_b_to_b)
    then show ?thesis by (rule range_eqI)
  next
    case a_to_c_b_to_d
    have "c = Minus64Bit_case (REG_GP_EAX, REG_GP_EDX, REG_GP_ECX, REG_GP_EBX)"
      by (simp add: Minus64Bit_case_def a_to_c_b_to_d)
    then show ?thesis by (rule range_eqI)
  qed
  then show ?thesis by auto
qed

lemma Minus64Bit_case_count: "card (range Minus64Bit_case) = 7"
  by (simp add: Minus64Bit_case_surj minus64_case_UNIV)

lemma bemit_minus64bit_insns:
  "bemit_minus64bit in_lo in_hi out_lo out_hi =
     bemit_insns (emit_ia32_Minus64Bit in_lo in_hi out_lo out_hi)"
  by (simp add: bemit_minus64bit_def emit_ia32_Minus64Bit_def normal_neg_def zero_neg_def
      bnormal_neg_def bzero_neg_def emit_xchg_def emit_mov_def emit_neg_def emit_sbb0_def
      emit_sbb_def emit_zero_def bemit_helper_zero_def then_emit_def split: sum.splits)

lemmas Minus64Bit_emit_defs = emit_ia32_Minus64Bit_def normal_neg_def zero_neg_def
  emit_xchg_def emit_mov_def emit_neg_def emit_sbb0_def emit_sbb_def emit_zero_def

lemma Minus64Bit_code_case:
  "emit_ia32_Minus64Bit in_lo in_hi out_lo out_hi =
     Minus64Bit_code (Minus64Bit_case (in_lo, in_hi, out_lo, out_hi)) in_lo in_hi out_lo out_hi"
  by (simp add: Minus64Bit_emit_defs Minus64Bit_case_def)

lemma Minus64Bit_formats_range:
  "range Minus64Bit_formats =
     {[''xorl %R, %R'', ''negl %R'', ''sbbl %R, %R''],
      [''negl %R'', ''negl %R'', ''sbbl $0, %R''],
      [''xchgl %R, %R'', ''negl %R'', ''negl %R'', ''sbbl $0, %R''],
      [''movl %R, %R'', ''movl %R, %R'', ''negl %R'', ''negl %R'', ''sbbl $0, %R''],
      [''movl %R, %R'', ''xorl %R, %R'', ''negl %R'', ''sbbl %R, %R''],
      [''movl %R, %R'', ''negl %R'', ''negl %R'', ''sbbl $0, %R'']}"
  (is "_ = ?S")
proof
  have "Minus64Bit_formats r \<in> ?S" for r
    by (cases r) (simp add: Minus64Bit_formats_def Minus64Bit_emit_defs)
  then show "range Minus64Bit_formats \<subseteq> ?S"
    by (rule image_subsetI)
  have "[''xorl %R, %R'', ''negl %R'', ''sbbl %R, %R''] =
          Minus64Bit_formats (REG_GP_EAX, REG_GP_EDX, REG_GP_EAX, REG_GP_EBX)"
    "[''negl %R'', ''negl %R'', ''sbbl $0, %R''] =
          Minus64Bit_formats (REG_GP_EAX, REG_GP_EDX, REG_GP_EAX, REG_GP_EDX)"
    "[''xchgl %R, %R'', ''negl %R'', ''negl %R'', ''sbbl $0, %R''] =
          Minus64Bit_formats (REG_GP_EAX, REG_GP_EDX, REG_GP_EDX, REG_GP_EAX)"
    "[''movl %R, %R'', ''movl %R, %R'', ''negl %R'', ''negl %R'', ''sbbl $0, %R''] =
          Minus64Bit_formats (REG_GP_EAX, REG_GP_EDX, REG_GP_EDX, REG_GP_EBX)"
    "[''movl %R, %R'', ''xorl %R, %R'', ''negl %R'', ''sbbl %R, %R''] =
          Minus64Bit_formats (REG_GP_EAX, REG_GP_EDX, REG_GP_ECX, REG_GP_EAX)"
    "[''movl %R, %R'', ''negl %R'', ''negl %R'', ''sbbl $0, %R''] =
          Minus64Bit_formats (REG_GP_EAX, REG_GP_EDX, REG_GP_ECX, REG_GP_EDX)"
    by (simp_all add: Minus64Bit_formats_def Minus64Bit_emit_defs)
  then show "?S \<subseteq> range Minus64Bit_formats"
    by (simp only: insert_subset empty_subsetI rangeI simp_thms)
qed

lemma Minus64Bit_formats_count: "card (range Minus64Bit_formats) = 6"
  by (simp add: Minus64Bit_formats_range)

text \<open>
  Claim C8, as amended. \<open>emit_ia32_Minus64Bit\<close> distinguishes seven subcases of the
  mapping from the input to the output registers: what it emits is the code of the leaf
  of its nested \<open>if\<close> that the registers select, and each of the seven leaves is
  selected by some registers. Two of the leaves have the same code, so that six different
  instruction sequences are emitted. Every one is \<open>neg out_hi; neg out_lo; sbb $0, out_hi\<close>
  or \<open>xor out_hi, out_hi; neg out_lo; sbb in_hi, out_hi\<close>, after nothing, after an
  \<open>xchg\<close> of the inputs, or after one or two register moves; and the binary emitter
  writes the encodings of exactly these instructions.
\<close>

theorem emit_ia32_Minus64Bit_sequences:
  "(\<exists>pre \<in> {[], [Xchgl in_lo in_hi], [Movl in_hi out_hi, Movl in_lo out_lo], [Movl in_lo out_lo]}.
      emit_ia32_Minus64Bit in_lo in_hi out_lo out_hi =
        pre @ [Negl out_hi, Negl out_lo, Sbbl0 out_hi] \<or>
      emit_ia32_Minus64Bit in_lo in_hi out_lo out_hi =
        pre @ [Xorl out_hi out_hi, Negl out_lo, Sbbl in_hi out_hi]) \<and>
   bemit_minus64bit in_lo in_hi out_lo out_hi =
     bemit_insns (emit_ia32_Minus64Bit in_lo in_hi out_lo out_hi) \<and>
   emit_ia32_Minus64Bit in_lo in_hi out_lo out_hi =
     Minus64Bit_code (Minus64Bit_case (in_lo, in_hi, out_lo, out_hi)) in_lo in_hi out_lo out_hi \<and>
   card (range Minus64Bit_case) = 7 \<and>
   card (range Minus64Bit_formats) = 6"
proof -
  have "\<exists>pre \<in> {[], [Xchgl in_lo in_hi], [Movl in_hi out_hi, Movl in_lo out_lo], [Movl in_lo out_lo]}.
      emit_ia32_Minus64Bit in_lo in_hi out_lo out_hi =
        pre @ [Negl out_hi, Negl out_lo, Sbbl0 out_hi] \<or>
      emit_ia32_Minus64Bit in_lo in_hi out_lo out_hi =
        pre @ [Xorl out_hi out_hi, Negl out_lo, Sbbl in_hi out_hi]"
    by (simp add: Minus64Bit_emit_defs)
  then show ?thesis
    using bemit_minus64bit_insns Minus64Bit_code_case Minus64Bit_case_count
      Minus64Bit_formats_count by blast
qed

text \<open>The swap of the two registers, in text and in bytes.\<close>

theorem emit_ia32_Minus64Bit_sequences_witness:
  "emit_ia32_Minus64Bit REG_GP_EAX REG_GP_EDX REG_GP_EDX REG_GP_EAX =
     [Xchgl REG_GP_EAX REG_GP_EDX, Negl REG_GP_EAX, Negl REG_GP_EDX, Sbbl0 REG_GP_EAX] \<and>
   bemit_minus64bit REG_GP_EAX REG_GP_EDX REG_GP_EDX REG_GP_EAX =
     Inr [Byte 0x92, Byte 0xF7, Byte 0xD8, Byte 0xF7, Byte 0xDA, Byte 0x83, Byte 0xD8, Byte 0x00]"
proof -
  have a: "emit_ia32_Minus64Bit REG_GP_EAX REG_GP_EDX REG_GP_EDX REG_GP_EAX =
     [Xchgl REG_GP_EAX REG_GP_EDX, Negl REG_GP_EAX, Negl REG_GP_EDX, Sbbl0 REG_GP_EAX]"
    by code_simp
  have b: "bemit_insns [Xchgl REG_GP_EAX REG_GP_EDX, Negl REG_GP_EAX, Negl REG_GP_EDX, Sbbl0 REG_GP_EAX] =
     Inr [Byte 0x92, Byte 0xF7, Byte 0xD8, Byte 0xF7, Byte 0xDA, Byte 0x83, Byte 0xD8, Byte 0x00]"
    by code_simp
  have c: "bemit_minus64bit REG_GP_EAX REG_GP_EDX REG_GP_EDX REG_GP_EAX =
     bemit_insns (emit_ia32_Minus64Bit REG_GP_EAX REG_GP_EDX REG_GP_EDX REG_GP_EAX)"
    using emit_ia32_Minus64Bit_sequences
      [where in_lo = REG_GP_EAX and in_hi = REG_GP_EDX and out_lo = REG_GP_EDX and out_hi = REG_GP_EAX]
    by (rule conjunct1 [OF conjunct2])
  show ?thesis by (simp only: c a b)
qed

text \<open>
  Claim C8 as stated fails in its count. With the inputs in \<open>eax\<close> (low) and \<open>edx\<close>
  (high), the seven output pairs below select the seven leaves, and no registers select
  an eighth: the subcases are seven and the instruction sequences six, the outputs
  \<open>(ecx, eax)\<close> and \<open>(ecx, ebx)\<close> giving the same sequence.
\<close>

theorem Minus64Bit_eight_subcases_counterexample:
  "emit_ia32_Minus64Bit REG_GP_EAX REG_GP_EDX REG_GP_EAX REG_GP_EBX =
     [Xorl REG_GP_EBX REG_GP_EBX, Negl REG_GP_EAX, Sbbl REG_GP_EDX REG_GP_EBX] \<and>
   emit_ia32_Minus64Bit REG_GP_EAX REG_GP_EDX REG_GP_EAX REG_GP_EDX =
     [Negl REG_GP_EDX, Negl REG_GP_EAX, Sbbl0 REG_GP_EDX] \<and>
   emit_ia32_Minus64Bit REG_GP_EAX REG_GP_EDX REG_GP_EDX REG_GP_EAX =
     [Xchgl REG_GP_EAX REG_GP_EDX, Negl REG_GP_EAX, Negl REG_GP_EDX, Sbbl0 REG_GP_EAX] \<and>
   emit_ia32_Minus64Bit REG_GP_EAX REG_GP_EDX REG_GP_EDX REG_GP_EBX =
     [Movl REG_GP_EDX REG_GP_EBX, Movl REG_GP_EAX REG_GP_EDX,
      Negl REG_GP_EBX, Negl REG_GP_EDX, Sbbl0 REG_GP_EBX] \<and>
   emit_ia32_Minus64Bit REG_GP_EAX REG_GP_EDX REG_GP_ECX REG_GP_EAX =
     [Movl REG_GP_EAX REG_GP_ECX, Xorl REG_GP_EAX REG_GP_EAX, Negl REG_GP_ECX,
      Sbbl REG_GP_EDX REG_GP_EAX] \<and>
   emit_ia32_Minus64Bit REG_GP_EAX REG_GP_EDX REG_GP_ECX REG_GP_EDX =
     [Movl REG_GP_EAX REG_GP_ECX, Negl REG_GP_EDX, Negl REG_GP_ECX, Sbbl0 REG_GP_EDX] \<and>
   emit_ia32_Minus64Bit REG_GP_EAX REG_GP_EDX REG_GP_ECX REG_GP_EBX =
     [Movl REG_GP_EAX REG_GP_ECX, Xorl REG_GP_EBX REG_GP_EBX, Negl REG_GP_ECX,
      Sbbl REG_GP_EDX REG_GP_EBX] \<and>
   Minus64Bit_formats (REG_GP_EAX, REG_GP_EDX, REG_GP_ECX, REG_GP_EAX) =
     Minus64Bit_formats (REG_GP_EAX, REG_GP_EDX, REG_GP_ECX, REG_GP_EBX) \<and>
   card (range Minus64Bit_case) \<noteq> 8 \<and>
   card (range Minus64Bit_formats) \<noteq> 8"
proof -
  have "Minus64Bit_formats (REG_GP_EAX, REG_GP_EDX, REG_GP_ECX, REG_GP_EAX) =
     Minus64Bit_formats (REG_GP_EAX, REG_GP_EDX, REG_GP_ECX, REG_GP_EBX)"
    by (simp add: Minus64Bit_formats_def Minus64Bit_emit_defs)
  then show ?thesis
    by (simp add: Minus64Bit_case_count Minus64Bit_formats_count Minus64Bit_emit_defs)
qed

lemma small_bits:
  fixes reg :: "32 word"
  assumes "reg \<le> 7" "bit reg n"
  shows "n < 3"
proof -
  have "reg < 2 ^ 3" using assms(1) by (simp add: word_less_nat_alt word_le_nat_alt)
  then have "reg AND mask 3 = reg"
    by (rule less_mask_eq)
  then have "bit (reg AND mask 3) n" using assms(2) by simp
  then show ?thesis by (simp add: bit_and_iff bit_mask_iff)
qed

lemma modrm_mod_field:
  fixes reg x :: "32 word"
  assumes "reg \<le> 7"
  shows "(ucast (x OR ENC_REG reg) :: 8 word) AND 0xC0 = ucast x AND 0xC0"
proof (rule bit_word_eqI)
  fix n assume "n < LENGTH(8)"
  have c0: "(0xC0 :: 8 word) = push_bit 6 (mask 2)" by (simp add: mask_eq_exp_minus_1)
  have b: "bit (0xC0 :: 8 word) n \<Longrightarrow> 6 \<le> n"
    unfolding c0 by (simp add: bit_simps)
  show "bit ((ucast (x OR ENC_REG reg) :: 8 word) AND 0xC0) n = bit ((ucast x :: 8 word) AND 0xC0) n"
    using small_bits [OF assms, of "n - 3"] b
    by (auto simp: bit_simps ENC_REG_def)
qed

lemma modrm_rm_field:
  fixes reg x :: "32 word"
  shows "(ucast (x OR ENC_REG reg) :: 8 word) AND 7 = ucast x AND 7"
proof (rule bit_word_eqI)
  fix n assume "n < LENGTH(8)"
  have c7: "(7 :: 8 word) = mask 3" by (simp add: mask_eq_exp_minus_1)
  have b: "bit (7 :: 8 word) n \<Longrightarrow> n < 3"
    unfolding c7 by (simp add: bit_simps)
  show "bit ((ucast (x OR ENC_REG reg) :: 8 word) AND 7) n = bit ((ucast x :: 8 word) AND 7) n"
    using b by (auto simp: bit_simps ENC_REG_def)
qed


lemma modrm_mod_field0:
  fixes reg :: "32 word"
  assumes "reg \<le> 7"
  shows "(ucast (ENC_REG reg) :: 8 word) AND 0xC0 = 0"
  using modrm_mod_field [OF assms, of 0] by simp

lemma modrm_rm_field0:
  fixes reg :: "32 word"
  shows "(ucast (ENC_REG reg) :: 8 word) AND 7 = 0"
  using modrm_rm_field [of 0 reg] by simp

lemma sib_base_field:
  fixes sc ix :: "32 word"
  shows "(ucast (ENC_SIB sc ix 5) :: 8 word) AND 7 = 5"
proof (rule bit_word_eqI)
  fix n assume "n < LENGTH(8)"
  have c7: "(7 :: 8 word) = mask 3" by (simp add: mask_eq_exp_minus_1)
  have b: "bit (7 :: 8 word) n \<Longrightarrow> n < 3"
    unfolding c7 by (simp add: bit_simps)
  have c: "n < 3 \<Longrightarrow> bit (7 :: 8 word) n"
    unfolding c7 by (simp add: bit_simps)
  show "bit ((ucast (ENC_SIB sc ix 5) :: 8 word) AND 7) n = bit (5 :: 8 word) n"
  proof (cases "n < 3")
    case True
    then have "n = 0 \<or> n = 1 \<or> n = 2" by auto
    then show ?thesis using c [OF True]
      by (auto simp: bit_simps ENC_SIB_def)
  next
    case False
    have "(5 :: 8 word) AND 7 = 5" by simp
    then have "bit (5 :: 8 word) n \<Longrightarrow> bit (7 :: 8 word) n"
      by (metis bit_and_iff)
    with False b have "\<not> bit (5 :: 8 word) n" by blast
    with False b show ?thesis by (auto simp: bit_simps)
  qed
qed

lemmas mod_am_defs =
  bemit_mod_am_def mod_am_sib_def mod_am_disp_def bemit8_def bemit32_def bemit_entity_def
  MOD_IND_def MOD_IND_BYTE_OFS_def MOD_IND_WORD_OFS_def ENC_RM_def Let_def

lemma mod_am_no_base:
  assumes "am_sc node = None" "am_base node = None" "reg \<le> 7"
    "am_index node \<noteq> None \<longrightarrow> am_scale node < 4"
  shows "case am_index node of
           None \<Rightarrow> \<exists>m. bemit_mod_am reg node = Inr [Byte m, Long (word_of_int (am_offs_int node))] \<and>
                       m AND 7 = 5 \<and> m AND 0xC0 = 0
         | Some i \<Rightarrow> \<exists>m b. bemit_mod_am reg node =
                         Inr [Byte m, Byte b, Long (word_of_int (am_offs_int node))] \<and>
                       m AND 7 = 4 \<and> b AND 7 = 5 \<and> m AND 0xC0 = 0"
  using assms
  by (auto simp: mod_am_defs modrm_mod_field modrm_rm_field modrm_mod_field0 modrm_rm_field0 sib_base_field split: option.splits)


lemma mod_am_byte_disp:
  assumes "am_sc node = None" "am_base node = Some r" "reg \<le> 7"
    "am_index node \<noteq> None \<longrightarrow> am_scale node < 4"
    "am_offs_int node \<noteq> 0" "-128 \<le> am_offs_int node" "am_offs_int node < 128"
  shows "\<exists>m s. bemit_mod_am reg node = Inr (Byte m # s @ [Byte (word_of_int (am_offs_int node))]) \<and>
           m AND 0xC0 = 0x40 \<and> (s = [] \<or> (\<exists>b. s = [Byte b]))"
  using assms
  by (cases r; cases "am_index node")
     (auto simp: mod_am_defs modrm_mod_field modrm_mod_field0)

lemma mod_am_esp_sib:
  assumes "am_base node = Some r" "reg_gp_map r = 0x04"
    "am_index node \<noteq> None \<longrightarrow> am_scale node < 4"
  shows "\<exists>m b rest. bemit_mod_am reg node = Inr (Byte m # Byte b # rest) \<and> m AND 7 = 4 \<and>
           (am_index node = None \<longrightarrow> b = 0x24)"
  using assms
  by (cases r; cases "am_index node")
     (auto simp: mod_am_defs modrm_rm_field modrm_rm_field0 ENC_SIB_def)

lemma mod_am_ebp_zero:
  assumes "am_sc node = None" "am_base node = Some r" "reg_gp_map r = 0x05" "reg \<le> 7"
    "am_index node \<noteq> None \<longrightarrow> am_scale node < 4" "am_offs_int node = 0"
  shows "\<exists>m s. bemit_mod_am reg node = Inr (Byte m # s @ [Byte 0]) \<and>
           m AND 0xC0 = 0x40 \<and> (s = [] \<or> (\<exists>b. s = [Byte b]))"
  using assms
  by (cases r; cases "am_index node")
     (auto simp: mod_am_defs modrm_mod_field modrm_mod_field0)

lemma mod_am_no_disp:
  assumes "am_sc node = None" "am_base node = Some r" "reg_gp_map r \<noteq> 0x05" "reg \<le> 7"
    "am_index node \<noteq> None \<longrightarrow> am_scale node < 4" "am_offs_int node = 0"
  shows "\<exists>m s. bemit_mod_am reg node = Inr (Byte m # s) \<and>
           m AND 0xC0 = 0 \<and> (s = [] \<or> (\<exists>b. s = [Byte b] \<and> m AND 7 = 4))"
  using assms
  by (cases r; cases "am_index node")
     (auto simp: mod_am_defs modrm_mod_field modrm_rm_field modrm_mod_field0 modrm_rm_field0)

text \<open>
  Claim C6, as amended. For an address mode without entity (and a register field of at
  most 7): without base register the base encoding is \<open>0x05\<close>, in the ModR/M byte or in
  the SIB byte, the mod field is 0 and a 32 bit displacement follows; with a base and a
  displacement in \<open>[-128, 127]\<close> other than 0 the mod field is \<open>0x40\<close> and an 8 bit
  displacement follows; a base that encodes as \<open>0x04\<close> gives a SIB byte; a base that
  encodes as \<open>0x05\<close> with displacement 0 gives the mod field \<open>0x40\<close> and a zero byte;
  and any other base with displacement 0 gives the mod field 0 and no displacement.
\<close>

theorem bemit_mod_am_encoding:
  assumes "am_sc node = None" "reg \<le> 7" "am_index node \<noteq> None \<longrightarrow> am_scale node < 4"
  shows
    "(am_base node = None \<longrightarrow>
        (case am_index node of
           None \<Rightarrow> \<exists>m. bemit_mod_am reg node = Inr [Byte m, Long (word_of_int (am_offs_int node))] \<and>
                       m AND 7 = 5 \<and> m AND 0xC0 = 0
         | Some i \<Rightarrow> \<exists>m b. bemit_mod_am reg node =
                         Inr [Byte m, Byte b, Long (word_of_int (am_offs_int node))] \<and>
                       m AND 7 = 4 \<and> b AND 7 = 5 \<and> m AND 0xC0 = 0)) \<and>
     (\<forall>r. am_base node = Some r \<and> am_offs_int node \<noteq> 0 \<and>
          -128 \<le> am_offs_int node \<and> am_offs_int node < 128 \<longrightarrow>
        (\<exists>m s. bemit_mod_am reg node = Inr (Byte m # s @ [Byte (word_of_int (am_offs_int node))]) \<and>
           m AND 0xC0 = 0x40 \<and> (s = [] \<or> (\<exists>b. s = [Byte b])))) \<and>
     (\<forall>r. am_base node = Some r \<and> reg_gp_map r = 0x04 \<longrightarrow>
        (\<exists>m b rest. bemit_mod_am reg node = Inr (Byte m # Byte b # rest) \<and> m AND 7 = 4 \<and>
           (am_index node = None \<longrightarrow> b = 0x24))) \<and>
     (\<forall>r. am_base node = Some r \<and> reg_gp_map r = 0x05 \<and> am_offs_int node = 0 \<longrightarrow>
        (\<exists>m s. bemit_mod_am reg node = Inr (Byte m # s @ [Byte 0]) \<and>
           m AND 0xC0 = 0x40 \<and> (s = [] \<or> (\<exists>b. s = [Byte b])))) \<and>
     (\<forall>r. am_base node = Some r \<and> reg_gp_map r \<noteq> 0x05 \<and> am_offs_int node = 0 \<longrightarrow>
        (\<exists>m s. bemit_mod_am reg node = Inr (Byte m # s) \<and>
           m AND 0xC0 = 0 \<and> (s = [] \<or> (\<exists>b. s = [Byte b] \<and> m AND 7 = 4))))"
  using mod_am_no_base [OF assms(1) _ assms(2,3)]
    mod_am_byte_disp [OF assms(1) _ assms(2,3)]
    mod_am_esp_sib [OF _ _ assms(3)]
    mod_am_ebp_zero [OF assms(1) _ _ assms(2,3)]
    mod_am_no_disp [OF assms(1) _ _ assms(2,3)]
  by blast

text \<open>
  The operands \<open>0x1234\<close> (no base), \<open>8(%esp)\<close> and \<open>(%ebp)\<close>, with register field 0.
\<close>

theorem bemit_mod_am_encoding_witness:
  "bemit_mod_am 0 (example_am None 0x1234) = Inr [Byte 0x05, Long 0x1234] \<and>
   bemit_mod_am 0 (example_am (Some REG_GP_ESP) 8) = Inr [Byte 0x44, Byte 0x24, Byte 0x08] \<and>
   bemit_mod_am 0 (example_am (Some REG_GP_EBP) 0) = Inr [Byte 0x45, Byte 0x00]"
proof -
  have h: "am_sc (example_am (Some REG_GP_EBP) 0) = None" "(0 :: 32 word) \<le> 7"
    "am_index (example_am (Some REG_GP_EBP) 0) \<noteq> None \<longrightarrow> am_scale (example_am (Some REG_GP_EBP) 0) < 4"
    by (simp_all add: example_am_def)
  have a: "bemit_mod_am 0 (example_am None 0x1234) = Inr [Byte 0x05, Long 0x1234]"
    by code_simp
  have b: "bemit_mod_am 0 (example_am (Some REG_GP_ESP) 8) = Inr [Byte 0x44, Byte 0x24, Byte 0x08]"
    by code_simp
  have c: "bemit_mod_am 0 (example_am (Some REG_GP_EBP) 0) = Inr [Byte 0x45, Byte 0x00]"
    by code_simp
  from bemit_mod_am_encoding [OF h] a b c show ?thesis by simp
qed

text \<open>
  Claim C6 as stated fails for the displacement 0, which lies in \<open>[-128, 127]\<close>: with
  the base \<open>%eax\<close> only the ModR/M byte is written, and no displacement.
\<close>

theorem bemit_mod_am_zero_displacement_counterexample:
  "am_base (example_am (Some REG_GP_EAX) 0) = Some REG_GP_EAX \<and>
   -128 \<le> am_offs_int (example_am (Some REG_GP_EAX) 0) \<and>
   am_offs_int (example_am (Some REG_GP_EAX) 0) \<le> 127 \<and>
   bemit_mod_am 0 (example_am (Some REG_GP_EAX) 0) = Inr [Byte 0x00]"
  by code_simp

text \<open>
  Claim C5, as amended. When the true Proj of a \<open>Jcc\<close> can be a fallthrough, the emitter
  exchanges the Projs and negates the condition code: for flags whose final code
  \<open>determine_final_cc\<close> finds, and a negated code that has a suffix, it prints the
  conditional jump with the suffix of the negated code to the false target and no \<open>jmp\<close>.
  The conditional jump is the only jump when the negated code has no parity case;
  otherwise a jump on the parity flag precedes it, to the false target when the code has
  the negated bit, else to the local label \<open>1\<close> that follows the conditional jump.
\<close>

theorem emit_ia32_Jcc_fallthrough:
  assumes "determine_final_cc D N g node 0 (condcode node) = Inr cc"
    "proj_true node = Some p_true" "proj_false node = Some p_false"
    "can_be_fallthrough env p_true"
    "ia32_emit_condition_code D (ia32_negate_condition_code D cc) = Inr suffix"
  shows "emit_ia32_Jcc D N g env node =
     Inr ((if ia32_negate_condition_code D cc
                AND cc_value D ia32_cc_float_parity_cases = 0 then []
           else if ia32_negate_condition_code D cc
                AND cc_value D ia32_cc_negated \<noteq> 0 then [Jp (proj_target p_false)]
           else [Jp_1f]) @
          [Jcc suffix (proj_target p_false)] @
          (if ia32_negate_condition_code D cc
                AND cc_value D ia32_cc_float_parity_cases \<noteq> 0 \<and>
              ia32_negate_condition_code D cc
                AND cc_value D ia32_cc_negated = 0 then [Label_1] else []) @
          (if verbose_asm env then [Fallthrough_comment (proj_target p_true)] else [])) \<and>
     (\<forall>out l. emit_ia32_Jcc D N g env node = Inr out \<longrightarrow> Jmp l \<notin> set out)"
  using assms
  by (auto simp: emit_ia32_Jcc_def jcc_parity_def Let_def)

text \<open>
  Schedule \<open>[0, 1, 2]\<close>, true target 1, false target 2, code \<open>less\<close> (\<open>0x0C\<close>) on the
  flags of the integer compare: the only line is the jump on \<open>greater or equal\<close>
  (\<open>0x0D\<close>, suffix \<open>ge\<close>) to block 2.
\<close>

theorem emit_ia32_Jcc_fallthrough_witness:
  "can_be_fallthrough example_sched \<lparr>proj_block = 0, proj_target = 1\<rparr> \<and>
   emit_ia32_Jcc example_cc_decl example_node_decl example_emit_graph example_sched
     (example_jcc 0x0C 0) = Inr [Jcc ''ge'' 2]"
proof -
  have a: "proj_true (example_jcc 0x0C 0) = Some \<lparr>proj_block = 0, proj_target = 1\<rparr>"
    and b: "proj_false (example_jcc 0x0C 0) = Some \<lparr>proj_block = 0, proj_target = 2\<rparr>"
    by (simp_all add: example_jcc_def)
  have c: "can_be_fallthrough example_sched \<lparr>proj_block = 0, proj_target = 1\<rparr>"
    by (simp add: can_be_fallthrough_def example_sched_def)
  have d: "determine_final_cc example_cc_decl example_node_decl example_emit_graph
             (example_jcc 0x0C 0) 0 (condcode (example_jcc 0x0C 0)) = Inr 0x0C"
    by code_simp
  have e: "ia32_emit_condition_code example_cc_decl
             (ia32_negate_condition_code example_cc_decl 0x0C) = Inr ''ge''"
    by code_simp
  have f: "emit_ia32_Jcc example_cc_decl example_node_decl example_emit_graph example_sched
             (example_jcc 0x0C 0) = Inr [Jcc ''ge'' 2]"
    by code_simp
  from emit_ia32_Jcc_fallthrough [OF d a b c e] c f show ?thesis by simp
qed

text \<open>
  Claim C5 as stated fails for a code with a parity case: for the floating point code
  \<open>0x34\<close> on the flags of a \<open>Sahf\<close> (node 3, a copy of a floating point compare behind
  it) two conditional jumps are printed, \<open>jp\<close> and the jump on the negated code.
\<close>

theorem emit_ia32_Jcc_single_branch_counterexample:
  "can_be_fallthrough example_sched \<lparr>proj_block = 0, proj_target = 1\<rparr> \<and>
   emit_ia32_Jcc example_cc_decl example_node_decl example_emit_graph example_sched
     (example_jcc 0x34 3) = Inr [Jp 2, Jcc ''ne'' 2]"
  by code_simp

end
